theory Spec2Isabelle
  imports Complex_Main
begin

section \<open>JavaScript values\<close>

text \<open>
  The coercion code works on untyped document data.  A value is one of the
  shapes that document data and a JSON response can take.  Numbers are IEEE
  doubles in the program; here a finite number is the exact rational it
  denotes (binary rounding and the sign of zero are not modelled), next to
  the three special values.
\<close>

datatype jsnum = NaN | PosInf | NegInf | Fin rat

datatype jsval =
    Undefined
  | Null
  | Bool bool
  | Num jsnum
  | Str string
  | Arr "jsval list"
  | Obj "(string \<times> jsval) list"
  | DateObj int
  | TimestampObj int

text \<open>\<^verbatim>\<open>typeof v\<close>.\<close>

fun typeof :: "jsval \<Rightarrow> string" where
  "typeof Undefined = ''undefined''"
| "typeof Null = ''object''"
| "typeof (Bool b) = ''boolean''"
| "typeof (Num n) = ''number''"
| "typeof (Str s) = ''string''"
| "typeof (Arr xs) = ''object''"
| "typeof (Obj kvs) = ''object''"
| "typeof (DateObj t) = ''object''"
| "typeof (TimestampObj t) = ''object''"

text \<open>\<^verbatim>\<open>Boolean(v)\<close>: the falsy values are undefined, null, false, 0, NaN and the empty string.\<close>

fun truthy :: "jsval \<Rightarrow> bool" where
  "truthy Undefined = False"
| "truthy Null = False"
| "truthy (Bool b) = b"
| "truthy (Num NaN) = False"
| "truthy (Num (Fin q)) = (q \<noteq> 0)"
| "truthy (Num n) = True"
| "truthy (Str s) = (s \<noteq> [])"
| "truthy v = True"

text \<open>\<^verbatim>\<open>Array.isArray(v)\<close> and \<^verbatim>\<open>Number.isInteger(v)\<close>.\<close>

fun isArray :: "jsval \<Rightarrow> bool" where
  "isArray (Arr xs) = True"
| "isArray v = False"

fun isInteger :: "jsval \<Rightarrow> bool" where
  "isInteger (Num (Fin q)) = (of_int \<lfloor>q\<rfloor> = q)"
| "isInteger v = False"

subsection \<open>Decimal strings: \<^verbatim>\<open>parseFloat\<close> and \<^verbatim>\<open>toFixed\<close>\<close>

definition is_digit :: "char \<Rightarrow> bool" where
  "is_digit c \<longleftrightarrow> c \<in> set ''0123456789''"

definition digit_val :: "char \<Rightarrow> nat" where
  "digit_val c = of_char c - 48"

definition digit_char :: "nat \<Rightarrow> char" where
  "digit_char d = ''0123456789'' ! d"

definition digits_val :: "string \<Rightarrow> nat" where
  "digits_val ds = foldl (\<lambda>a c. 10 * a + digit_val c) 0 ds"

text \<open>The white space \<^verbatim>\<open>parseFloat\<close> skips (the ASCII part of it).\<close>

definition is_space :: "char \<Rightarrow> bool" where
  "is_space c \<longleftrightarrow> of_char c \<in> {9, 10, 11, 12, 13, 32 :: nat}"

text \<open>
  The exponent part of a decimal literal: \<^verbatim>\<open>e\<close> or \<^verbatim>\<open>E\<close>, an optional sign and at
  least one digit; anything else is not part of the number and counts as
  exponent 0.
\<close>

definition exponent_part :: "string \<Rightarrow> int" where
  "exponent_part r =
     (case r of
        [] \<Rightarrow> 0
      | c # r1 \<Rightarrow>
          if c = CHR ''e'' \<or> c = CHR ''E'' then
            (case r1 of
               [] \<Rightarrow> 0
             | s # r2 \<Rightarrow>
                 if s = CHR ''-'' then - int (digits_val (takeWhile is_digit r2))
                 else if s = CHR ''+'' then int (digits_val (takeWhile is_digit r2))
                 else int (digits_val (takeWhile is_digit r1)))
          else 0)"

definition pow10 :: "int \<Rightarrow> rat" where
  "pow10 e = (if 0 \<le> e then 10 ^ nat e else 1 / 10 ^ nat (- e))"

text \<open>
  \<^verbatim>\<open>parseFloat(s)\<close>: skip leading white space, read the longest prefix that is
  a decimal literal (sign, \<^verbatim>\<open>Infinity\<close> or digits with an optional fraction and
  exponent); \<^verbatim>\<open>NaN\<close> when there is none.
\<close>

definition unsigned_literal :: "string \<Rightarrow> jsnum" where
  "unsigned_literal u =
     (if take 8 u = ''Infinity'' then PosInf
      else
        let ip = takeWhile is_digit u;
            r1 = dropWhile is_digit u;
            fp = (case r1 of [] \<Rightarrow> [] | c # r \<Rightarrow> if c = CHR ''.'' then takeWhile is_digit r else []);
            r2 = (case r1 of [] \<Rightarrow> [] | c # r \<Rightarrow> if c = CHR ''.'' then dropWhile is_digit r else r1)
        in if ip = [] \<and> fp = [] then NaN
           else Fin ((of_nat (digits_val ip) + of_nat (digits_val fp) / 10 ^ length fp)
                      * pow10 (exponent_part r2)))"

fun negate :: "jsnum \<Rightarrow> jsnum" where
  "negate NaN = NaN"
| "negate PosInf = NegInf"
| "negate NegInf = PosInf"
| "negate (Fin q) = Fin (- q)"

definition parseFloat :: "string \<Rightarrow> jsnum" where
  "parseFloat s =
     (case dropWhile is_space s of
        [] \<Rightarrow> NaN
      | c # r \<Rightarrow>
          if c = CHR ''-'' then negate (unsigned_literal r)
          else if c = CHR ''+'' then unsigned_literal r
          else unsigned_literal (c # r))"

text \<open>The decimal digits of a natural number.\<close>

fun show_nat :: "nat \<Rightarrow> string" where
  "show_nat n = (if n < 10 then [digit_char n] else show_nat (n div 10) @ [digit_char (n mod 10)])"

declare show_nat.simps [simp del]

text \<open>
  \<^verbatim>\<open>x.toFixed(f)\<close>.  For a finite \<open>x\<close> the digits are those of the integer
  \<open>n\<close> nearest to \<open>|x| * 10^f\<close> (the larger when two are as near), padded
  with zeros to at least \<open>f + 1\<close> digits, the point before the last \<open>f\<close>
  digits, a minus sign before a negative \<open>x\<close>.  The program switches to
  exponent notation from \<open>10^21\<close> on; a double that large is an integer, and
  \<open>safeFloat\<close> returns integers before it formats anything, so that
  notation is not modelled.
\<close>

definition toFixed :: "jsnum \<Rightarrow> nat \<Rightarrow> string" where
  "toFixed x f =
     (case x of
        NaN \<Rightarrow> ''NaN''
      | PosInf \<Rightarrow> ''Infinity''
      | NegInf \<Rightarrow> ''-Infinity''
      | Fin q \<Rightarrow>
          let n = nat \<lfloor>\<bar>q\<bar> * 10 ^ f + 1 / 2\<rfloor>;
              m = show_nat n;
              m = (if length m \<le> f then replicate (f + 1 - length m) CHR ''0'' @ m else m);
              m = (if f = 0 then m
                   else take (length m - f) m @ ''.'' @ drop (length m - f) m)
          in (if q < 0 then ''-'' else '''') @ m)"


text \<open>
  The digits \<^verbatim>\<open>toFixed\<close> prints for \<open>n\<close> with \<open>f > 0\<close> fraction digits, and
  the numbers with at most two fraction digits: those whose hundredfold is an
  integer.
\<close>

definition fixed_digits :: "nat \<Rightarrow> nat \<Rightarrow> string" where
  "fixed_digits n f =
     (let m = show_nat n;
          m = (if length m \<le> f then replicate (f + 1 - length m) CHR ''0'' @ m else m)
      in take (length m - f) m @ ''.'' @ drop (length m - f) m)"

definition two_decimals :: "rat \<Rightarrow> bool" where
  "two_decimals q \<longleftrightarrow> of_int \<lfloor>q * 100\<rfloor> = q * 100"

section \<open>Field coercion (\<^verbatim>\<open>formatDocument\<close>)\<close>

datatype error = TypeError | TransformError | WarehouseError | StoreError

text \<open>
  \<^verbatim>\<open>safeFloat(value)\<close>.  The caller passes null or a number; \<^verbatim>\<open>toFixed\<close> on
  anything else is a type error.
\<close>

definition safeFloat :: "jsval \<Rightarrow> error + jsval" where
  "safeFloat v =
     (if \<not> truthy v \<and> v \<noteq> Num (Fin 0) then Inr Null
      else if isInteger v then Inr v
      else (case v of
              Num x \<Rightarrow> Inr (Num (parseFloat (toFixed x 2)))
            | _ \<Rightarrow> Inl TypeError))"

text \<open>
  A parsed field definition.  \<open>formater\<close> is a JSON pointer, \<open>accessor\<close> and
  the optional transform (\<^verbatim>\<open>method\<close> in the program) are functions compiled
  when the configuration is loaded; they are taken as pure functions.
\<close>

record ParsedFieldDefinition =
  key :: string
  type :: string
  formater :: "string option"
  accessor :: "jsval \<Rightarrow> jsval"
  method_fn :: "(jsval \<Rightarrow> jsval) option"

record RuntimeCollectionConfig =
  config_id :: string
  collectionPaths :: "string list"
  collectionGroup :: "string option"
  datasetId :: string
  tableId :: string
  trackerTableId :: string
  datasetLocation :: string
  config_fields :: "ParsedFieldDefinition list"
  backfill :: bool
  includeParentIdInDocumentId :: bool
  transformUrl :: "string option"

text \<open>A coerced record: column name to value, \<^verbatim>\<open>documentId\<close> included.\<close>

type_synonym document = "string \<rightharpoonup> jsval"

text \<open>
  What the coercion calls outside the repository: the transform webhook
  (\<^verbatim>\<open>fetch\<close> and the parsing of its JSON response; \<open>Inl\<close> when either
  rejects), \<^verbatim>\<open>JSON.stringify\<close> (a string, or \<^verbatim>\<open>undefined\<close> as \<open>None\<close>), the
  \<^verbatim>\<open>json-pointer\<close> lookup (\<open>None\<close> where \<^verbatim>\<open>has\<close> is false), the conversion of
  a date-like value to an ISO-8601 string (\<open>None\<close> where it throws), the
  string conversion of a template literal, and the warehouse's bulk insert
  (whether it accepts the rows).
\<close>

record platform =
  fetch :: "string \<Rightarrow> jsval \<Rightarrow> error + jsval"
  JSON_stringify :: "jsval \<Rightarrow> string option"
  pointer_get :: "jsval \<Rightarrow> string \<Rightarrow> jsval option"
  toISOString :: "jsval \<Rightarrow> string option"
  ToString :: "jsval \<Rightarrow> string"
  bq_insert :: "document list \<Rightarrow> bool"

text \<open>\<^verbatim>\<open>if (track.method) value = track.method(value)\<close>.\<close>

definition apply_method :: "ParsedFieldDefinition \<Rightarrow> jsval \<Rightarrow> jsval" where
  "apply_method track v = (case method_fn track of None \<Rightarrow> v | Some m \<Rightarrow> m v)"

text \<open>\<^verbatim>\<open>xs.flat()\<close> and \<^verbatim>\<open>[].concat(...xs)\<close>: one level of arrays is spliced in.\<close>

fun flat :: "jsval list \<Rightarrow> jsval list" where
  "flat [] = []"
| "flat (Arr ys # xs) = ys @ flat xs"
| "flat (x # xs) = x # flat xs"

definition is_primitive :: "jsval \<Rightarrow> bool" where
  "is_primitive v \<longleftrightarrow>
     typeof v = ''string'' \<or> typeof v = ''boolean'' \<or> typeof v = ''number''"

text \<open>The cases \<^verbatim>\<open>NUMERIC\<close>, \<^verbatim>\<open>FLOAT64\<close>, \<^verbatim>\<open>INT64\<close> of the switch.\<close>

definition format_NUMERIC :: "ParsedFieldDefinition \<Rightarrow> jsval \<Rightarrow> error + jsval" where
  "format_NUMERIC track v0 =
     (let v1 = apply_method track v0;
          v2 = (case v1 of Str s \<Rightarrow> Num (parseFloat s) | _ \<Rightarrow> v1);
          v3 = (if \<not> truthy v2 \<and> v2 \<noteq> Num (Fin 0) then Null else v2);
          v4 = (if typeof v3 \<noteq> ''number'' then Null else v3)
      in safeFloat v4)"

text \<open>The cases \<^verbatim>\<open>BIGNUMERIC\<close> and \<^verbatim>\<open>BIGDECIMAL\<close>.\<close>

definition format_BIGNUMERIC :: "ParsedFieldDefinition \<Rightarrow> jsval \<Rightarrow> jsval" where
  "format_BIGNUMERIC track v0 =
     (let v1 = apply_method track v0;
          v2 = (case v1 of Str s \<Rightarrow> Num (parseFloat s) | _ \<Rightarrow> v1);
          v3 = (if \<not> truthy v2 \<and> v2 \<noteq> Num (Fin 0) then Null else v2)
      in if typeof v3 \<noteq> ''number'' then Null else v3)"

text \<open>
  The case \<^verbatim>\<open>ARRAY\<close>: the value is made an array, the formatter (when the
  pointer is a non-empty string) and the transform are mapped over it
  (\<open>array_entries\<close>), then \<^verbatim>\<open>.filter(Boolean).flat()\<close>.
\<close>

definition normalize_array :: "jsval \<Rightarrow> jsval list" where
  "normalize_array v =
     (case v of
        Arr xs \<Rightarrow> xs
      | _ \<Rightarrow> if \<not> truthy v \<and> v \<noteq> Bool False \<and> v \<noteq> Num (Fin 0) then [] else [v])"

definition format_element :: "platform \<Rightarrow> ParsedFieldDefinition \<Rightarrow> string \<Rightarrow> jsval \<Rightarrow> jsval" where
  "format_element P track fm v =
     (let val = (if typeof v = ''object''
                 then (case pointer_get P v fm of Some w \<Rightarrow> w | None \<Rightarrow> v)
                 else v)
      in apply_method track val)"

definition array_entries :: "platform \<Rightarrow> ParsedFieldDefinition \<Rightarrow> jsval \<Rightarrow> jsval list" where
  "array_entries P track v0 =
     (let xs = normalize_array v0;
          ys = (case formater track of
                  None \<Rightarrow> xs
                | Some fm \<Rightarrow> if fm = [] then xs else flat (map (format_element P track fm) xs))
      in map (apply_method track) ys)"

definition format_ARRAY :: "platform \<Rightarrow> ParsedFieldDefinition \<Rightarrow> jsval \<Rightarrow> jsval" where
  "format_ARRAY P track v0 = Arr (flat (filter truthy (array_entries P track v0)))"

text \<open>The cases \<^verbatim>\<open>TIMESTAMP\<close>, \<^verbatim>\<open>DATETIME\<close> and \<^verbatim>\<open>DATE\<close>.\<close>

definition is_date_like :: "jsval \<Rightarrow> bool" where
  "is_date_like v \<longleftrightarrow>
     (case v of Num n \<Rightarrow> True | Str s \<Rightarrow> True | DateObj t \<Rightarrow> True | TimestampObj t \<Rightarrow> True
      | _ \<Rightarrow> False)"

definition format_TIMESTAMP :: "platform \<Rightarrow> ParsedFieldDefinition \<Rightarrow> jsval \<Rightarrow> jsval" where
  "format_TIMESTAMP P track v0 =
     (let v1 = apply_method track v0
      in if \<not> truthy v1 then Null
         else if is_date_like v1
         then (case toISOString P v1 of Some s \<Rightarrow> Str s | None \<Rightarrow> Null)
         else Null)"

definition format_DATE :: "platform \<Rightarrow> ParsedFieldDefinition \<Rightarrow> jsval \<Rightarrow> jsval" where
  "format_DATE P track v0 =
     (let v1 = apply_method track v0
      in if \<not> truthy v1 then Null
         else if is_date_like v1
         then (case toISOString P v1 of
                 Some s \<Rightarrow> Str (takeWhile (\<lambda>c. c \<noteq> CHR ''T'') s)
               | None \<Rightarrow> Null)
         else Null)"

text \<open>The case \<^verbatim>\<open>JSON\<close>.\<close>

definition format_JSON :: "platform \<Rightarrow> ParsedFieldDefinition \<Rightarrow> jsval \<Rightarrow> jsval" where
  "format_JSON P track v0 =
     (let v1 = (case method_fn track of
                  Some m \<Rightarrow> m v0
                | None \<Rightarrow> (case JSON_stringify P v0 of Some s \<Rightarrow> Str s | None \<Rightarrow> Undefined))
      in if is_primitive v1 then Null else v1)"

text \<open>The body of \<^verbatim>\<open>trackedKeys.forEach\<close>: the switch on \<^verbatim>\<open>track.type\<close>.\<close>

definition formatValue :: "platform \<Rightarrow> ParsedFieldDefinition \<Rightarrow> jsval \<Rightarrow> error + jsval" where
  "formatValue P track v =
     (let ty = type track in
      if ty = ''NUMERIC'' \<or> ty = ''FLOAT64'' \<or> ty = ''INT64'' then format_NUMERIC track v
      else if ty = ''BIGNUMERIC'' \<or> ty = ''BIGDECIMAL'' then Inr (format_BIGNUMERIC track v)
      else if ty = ''ARRAY'' then Inr (format_ARRAY P track v)
      else if ty = ''TIMESTAMP'' \<or> ty = ''DATETIME'' then Inr (format_TIMESTAMP P track v)
      else if ty = ''DATE'' then Inr (format_DATE P track v)
      else if ty = ''BOOL'' then Inr (Bool (truthy (apply_method track v)))
      else if ty = ''STRING''
      then Inr (let v1 = apply_method track v in if typeof v1 \<noteq> ''string'' then Null else v1)
      else if ty = ''JSON'' then Inr (format_JSON P track v)
      else if ty = ''REPEATED'' then Inr (if is_primitive v then Null else v)
      else Inr v)"

text \<open>
  Property access \<^verbatim>\<open>data.parentId\<close> (a type error on null and undefined) and
  the object \<^verbatim>\<open>{documentId, ...data}\<close> sent to the webhook.
\<close>

definition get_prop :: "jsval \<Rightarrow> string \<Rightarrow> error + jsval" where
  "get_prop v k =
     (case v of
        Undefined \<Rightarrow> Inl TypeError
      | Null \<Rightarrow> Inl TypeError
      | Obj kvs \<Rightarrow> Inr (case map_of kvs k of Some w \<Rightarrow> w | None \<Rightarrow> Undefined)
      | _ \<Rightarrow> Inr Undefined)"

fun set_prop :: "(string \<times> jsval) list \<Rightarrow> string \<Rightarrow> jsval \<Rightarrow> (string \<times> jsval) list" where
  "set_prop [] k v = [(k, v)]"
| "set_prop ((k', w) # kvs) k v = (if k' = k then (k, v) # kvs else (k', w) # set_prop kvs k v)"

definition spread :: "(string \<times> jsval) list \<Rightarrow> jsval \<Rightarrow> (string \<times> jsval) list" where
  "spread base v =
     (case v of Obj kvs \<Rightarrow> foldl (\<lambda>acc (k, w). set_prop acc k w) base kvs | _ \<Rightarrow> base)"

fun format_fields ::
  "platform \<Rightarrow> jsval \<Rightarrow> ParsedFieldDefinition list \<Rightarrow> document \<Rightarrow> error + document" where
  "format_fields P data [] doc = Inr doc"
| "format_fields P data (track # rest) doc =
     (case formatValue P track (accessor track data) of
        Inl e \<Rightarrow> Inl e
      | Inr v \<Rightarrow> format_fields P data rest (doc(key track \<mapsto> v)))"

definition formatDocument ::
  "platform \<Rightarrow> jsval \<Rightarrow> string \<Rightarrow> RuntimeCollectionConfig \<Rightarrow> error + document" where
  "formatDocument P data documentId config =
     (case (if includeParentIdInDocumentId config
            then (case get_prop data ''parentId'' of
                    Inl e \<Rightarrow> Inl e
                  | Inr p \<Rightarrow> Inr (if truthy p then ToString P p @ ''-'' @ documentId
                                 else documentId))
            else Inr documentId) of
        Inl e \<Rightarrow> Inl e
      | Inr docId \<Rightarrow>
          (case (case transformUrl config of
                   None \<Rightarrow> Inr data
                 | Some url \<Rightarrow>
                     if url = [] then Inr data
                     else fetch P url (Obj (spread [(''documentId'', Str docId)] data))) of
             Inl e \<Rightarrow> Inl e
           | Inr data' \<Rightarrow>
               format_fields P data' (config_fields config) [''documentId'' \<mapsto> Str docId]))"


section \<open>Backfill\<close>

text \<open>
  A document snapshot of a query result: \<^verbatim>\<open>doc.id\<close>, \<^verbatim>\<open>doc.data()\<close> and
  \<^verbatim>\<open>doc.ref.parent.parent?.id\<close>.  The store maps a collection path, or a
  collection group, to its documents in query order.
\<close>

record QueryDocumentSnapshot =
  doc_id :: string
  doc_data :: jsval
  doc_parent_id :: "string option"

record firestore =
  fs_collection :: "string \<Rightarrow> QueryDocumentSnapshot list"
  fs_collectionGroup :: "string \<Rightarrow> QueryDocumentSnapshot list"

text \<open>
  The state of the loop: the rows in the main table, \<^verbatim>\<open>total\<close>, and the
  cursor \<^verbatim>\<open>ref\<close>.
\<close>

record backfill_state =
  inserted :: "document list"
  total :: nat
  ref :: "QueryDocumentSnapshot option"

text \<open>
  The rows of the promises that were fulfilled, \<^verbatim>\<open>rows\<close> after
  \<^verbatim>\<open>Promise.allSettled\<close>, in the order of the page (the program pushes them
  as the promises resolve).  Reading the store is taken to succeed.
\<close>

fun settled_rows :: "(error + document) list \<Rightarrow> document list" where
  "settled_rows [] = []"
| "settled_rows (Inr r # xs) = r # settled_rows xs"
| "settled_rows (Inl e # xs) = settled_rows xs"

text \<open>
  The \<^verbatim>\<open>do ... while (ref)\<close> loop, the same in \<^verbatim>\<open>backfillCollection\<close> and
  \<^verbatim>\<open>backfillCollectionGroup\<close> up to the row built from a snapshot.
  \<open>remaining\<close> is what the query returns from the cursor on
  (\<^verbatim>\<open>col.startAt(ref)\<close>; the whole collection while \<^verbatim>\<open>ref\<close> is null), so a page
  is its first \<open>batchSize + 1\<close> snapshots and the next cursor
  \<^verbatim>\<open>docs[batchSize]\<close> starts the query \<open>batchSize\<close> snapshots further.
\<close>

function backfill_loop ::
  "(QueryDocumentSnapshot \<Rightarrow> error + document) \<Rightarrow> (document list \<Rightarrow> bool) \<Rightarrow> nat \<Rightarrow>
   QueryDocumentSnapshot list \<Rightarrow> backfill_state \<Rightarrow> backfill_state" where
  "backfill_loop coerce ins batchSize remaining st =
     (let docs = take (batchSize + 1) remaining;
          rows = settled_rows (map coerce (take batchSize docs));
          st1 = st\<lparr>total := total st + length docs\<rparr>
      in if rows = [] then st1
         else if batchSize < length docs
         then backfill_loop coerce ins batchSize (drop batchSize remaining)
                (st1\<lparr>ref := Some (docs ! batchSize),
                     inserted := (if ins rows then inserted st1 @ rows else inserted st1)\<rparr>)
         else st1\<lparr>ref := None,
                  inserted := (if ins rows then inserted st1 @ rows else inserted st1)\<rparr>)"
  by pat_completeness auto
termination
proof (relation "measure (\<lambda>(coerce, ins, batchSize, remaining, st). length remaining)")
  show "wf (measure (\<lambda>(coerce, ins, batchSize, remaining, st). length remaining))"
    by simp
next
  fix coerce :: "QueryDocumentSnapshot \<Rightarrow> error + document"
    and ins :: "document list \<Rightarrow> bool" and batchSize :: nat
    and remaining :: "QueryDocumentSnapshot list" and st :: backfill_state
    and docs rows st1
  assume docs: "docs = take (batchSize + 1) remaining"
    and rows: "rows = settled_rows (map coerce (take batchSize docs))"
    and ne: "rows \<noteq> []"
    and more: "batchSize < length docs"
  from rows ne have "batchSize \<noteq> 0"
    by (cases batchSize) auto
  moreover from docs more have "batchSize < length remaining"
    by simp
  ultimately show
    "((coerce, ins, batchSize, drop batchSize remaining,
       st1\<lparr>ref := Some (docs ! batchSize),
            inserted := if ins rows then inserted st1 @ rows else inserted st1\<rparr>),
      (coerce, ins, batchSize, remaining, st))
     \<in> measure (\<lambda>(coerce, ins, batchSize, remaining, st). length remaining)"
    by simp
qed

declare backfill_loop.simps [simp del]

text \<open>The row built from a snapshot by each of the two functions.\<close>

definition collection_row ::
  "platform \<Rightarrow> RuntimeCollectionConfig \<Rightarrow> QueryDocumentSnapshot \<Rightarrow> error + document" where
  "collection_row P config doc = formatDocument P (doc_data doc) (doc_id doc) config"

definition with_parentId :: "QueryDocumentSnapshot \<Rightarrow> jsval" where
  "with_parentId doc =
     (case doc_data doc of
        Obj kvs \<Rightarrow>
          Obj (set_prop kvs ''parentId''
                 (case doc_parent_id doc of Some p \<Rightarrow> Str p | None \<Rightarrow> Undefined))
      | v \<Rightarrow> v)"

definition group_row ::
  "platform \<Rightarrow> RuntimeCollectionConfig \<Rightarrow> QueryDocumentSnapshot \<Rightarrow> error + document" where
  "group_row P config doc = formatDocument P (with_parentId doc) (doc_id doc) config"

definition backfillCollection ::
  "platform \<Rightarrow> firestore \<Rightarrow> nat \<Rightarrow> RuntimeCollectionConfig \<Rightarrow> string \<Rightarrow> document list \<Rightarrow>
   backfill_state" where
  "backfillCollection P fs batchSize config path table =
     backfill_loop (collection_row P config) (bq_insert P) batchSize (fs_collection fs path)
       \<lparr>inserted = table, total = 0, ref = None\<rparr>"

definition backfillCollectionGroup ::
  "platform \<Rightarrow> firestore \<Rightarrow> nat \<Rightarrow> RuntimeCollectionConfig \<Rightarrow> document list \<Rightarrow>
   error + backfill_state" where
  "backfillCollectionGroup P fs batchSize config table =
     (case collectionGroup config of
        None \<Rightarrow> Inl StoreError
      | Some g \<Rightarrow>
          Inr (backfill_loop (group_row P config) (bq_insert P) batchSize (fs_collectionGroup fs g)
                 \<lparr>inserted = table, total = 0, ref = None\<rparr>))"


section \<open>Consolidation (\<^verbatim>\<open>syncTrackerToMainTable\<close>)\<close>

subsection \<open>Tables\<close>

text \<open>
  A row of the main table is a document id and one column per field; a
  column that is \<^verbatim>\<open>NULL\<close> is \<open>None\<close>.  A row of the tracker table has the
  change type and the event timestamp besides (milliseconds since the
  epoch), a row of the temporary table \<^verbatim>\<open>tmp\<close> the two counts.
\<close>

datatype ChangeType = CREATED | UPDATED | DELETED

record 'v row =
  documentId :: string
  columns :: "string \<Rightarrow> 'v option"

record 'v tracker_row = "'v row" +
  changeType :: ChangeType
  timestamp :: int

record 'v tmp_row = "'v row" +
  createdCount :: nat
  deletedCount :: nat

text \<open>
  The warehouse functions the query applies to \<^verbatim>\<open>ARRAY\<close> and \<^verbatim>\<open>JSON\<close> columns.
  They belong to the warehouse, not to the repository, and are parameters.
\<close>

record 'v sql_functions =
  ARRAY_TO_STRING :: "'v option \<Rightarrow> 'v option"
  TO_JSON_STRING :: "'v option \<Rightarrow> 'v option"
  SPLIT :: "'v option \<Rightarrow> 'v option"
  PARSE_JSON :: "'v option \<Rightarrow> 'v option"

subsection \<open>The query\<close>

text \<open>\<^verbatim>\<open>x BETWEEN lo AND hi\<close>, \<^verbatim>\<open>COALESCE\<close>, \<^verbatim>\<open>MAX(timestamp)\<close> and \<^verbatim>\<open>COUNTIF\<close>.\<close>

definition BETWEEN :: "int \<Rightarrow> int \<Rightarrow> int \<Rightarrow> bool" where
  "BETWEEN x lo hi \<longleftrightarrow> lo \<le> x \<and> x \<le> hi"

definition COALESCE :: "'a option \<Rightarrow> 'a \<Rightarrow> 'a" where
  "COALESCE x d = (case x of None \<Rightarrow> d | Some v \<Rightarrow> v)"

definition MAX_timestamp :: "('v, 'z) tracker_row_scheme list \<Rightarrow> int option" where
  "MAX_timestamp rows = (if rows = [] then None else Some (Max (set (map timestamp rows))))"

definition COUNTIF :: "('a \<Rightarrow> bool) \<Rightarrow> 'a list \<Rightarrow> nat" where
  "COUNTIF p rows = length (filter p rows)"

text \<open>
  The subquery of the \<^verbatim>\<open>WHERE\<close> clause: the latest \<^verbatim>\<open>CREATED\<close> timestamp of a
  document over the whole tracker table, the epoch when it has none.
\<close>

definition latest_created :: "'v tracker_row list \<Rightarrow> string \<Rightarrow> int" where
  "latest_created tlog d =
     COALESCE (MAX_timestamp (filter (\<lambda>r. documentId r = d \<and> changeType r = CREATED) tlog)) 0"

text \<open>The \<^verbatim>\<open>WHERE\<close> clause of the \<^verbatim>\<open>SELECT\<close> that fills \<^verbatim>\<open>tmp\<close>.\<close>

definition selected :: "'v tracker_row list \<Rightarrow> int \<Rightarrow> int \<Rightarrow> 'v tracker_row \<Rightarrow> bool" where
  "selected tlog startTime endTime n \<longleftrightarrow>
     latest_created tlog (documentId n) \<le> timestamp n \<and> BETWEEN (timestamp n) startTime endTime"

text \<open>
  The expression aggregated for a field (\<^verbatim>\<open>selection\<close>) and the expression
  written to the main table (in the \<^verbatim>\<open>INSERT\<close> and in \<^verbatim>\<open>update\<close>).
\<close>

definition selection :: "'v sql_functions \<Rightarrow> ParsedFieldDefinition \<Rightarrow> 'v option \<Rightarrow> 'v option" where
  "selection B f x =
     (if type f = ''ARRAY'' then ARRAY_TO_STRING B x
      else if type f = ''JSON'' then TO_JSON_STRING B x
      else x)"

definition main_value :: "'v sql_functions \<Rightarrow> ParsedFieldDefinition \<Rightarrow> 'v option \<Rightarrow> 'v option" where
  "main_value B f x =
     (if type f = ''ARRAY'' then SPLIT B x
      else if type f = ''JSON'' then PARSE_JSON B x
      else x)"

text \<open>
  \<^verbatim>\<open>ARRAY_AGG(x IGNORE NULLS ORDER BY timestamp DESC)[OFFSET(0)]\<close>: the rows by
  descending timestamp, the nulls dropped, the first element; \<^verbatim>\<open>NULL\<close> when
  nothing is left.
\<close>

definition ORDER_BY_timestamp_DESC :: "'v tracker_row list \<Rightarrow> 'v tracker_row list" where
  "ORDER_BY_timestamp_DESC rows = sort_key (\<lambda>n. - timestamp n) rows"

fun IGNORE_NULLS :: "'a option list \<Rightarrow> 'a list" where
  "IGNORE_NULLS [] = []"
| "IGNORE_NULLS (None # xs) = IGNORE_NULLS xs"
| "IGNORE_NULLS (Some v # xs) = v # IGNORE_NULLS xs"

definition OFFSET_0 :: "'a list \<Rightarrow> 'a option" where
  "OFFSET_0 xs = (case xs of [] \<Rightarrow> None | v # _ \<Rightarrow> Some v)"

definition field_of :: "ParsedFieldDefinition list \<Rightarrow> string \<Rightarrow> ParsedFieldDefinition option" where
  "field_of fs k = find (\<lambda>f. key f = k) fs"

text \<open>The tracker rows of one document that the \<^verbatim>\<open>WHERE\<close> clause keeps.\<close>

definition group_rows :: "'v tracker_row list \<Rightarrow> int \<Rightarrow> int \<Rightarrow> string \<Rightarrow> 'v tracker_row list" where
  "group_rows tlog startTime endTime d =
     filter (\<lambda>n. documentId n = d) (filter (selected tlog startTime endTime) tlog)"

definition aggregate ::
  "'v sql_functions \<Rightarrow> ParsedFieldDefinition \<Rightarrow> 'v tracker_row list \<Rightarrow> 'v option" where
  "aggregate B f rows =
     OFFSET_0 (IGNORE_NULLS
       (map (\<lambda>n. selection B f (columns n (key f))) (ORDER_BY_timestamp_DESC rows)))"

definition window_count ::
  "ChangeType \<Rightarrow> 'v tracker_row list \<Rightarrow> int \<Rightarrow> int \<Rightarrow> string \<Rightarrow> nat" where
  "window_count ct tlog startTime endTime d =
     COUNTIF (\<lambda>sub. changeType sub = ct)
       (filter (\<lambda>sub. documentId sub = d \<and> BETWEEN (timestamp sub) startTime endTime) tlog)"

text \<open>\<^verbatim>\<open>CREATE TEMP TABLE tmp AS SELECT ... GROUP BY documentId\<close>.\<close>

definition tmp_table ::
  "'v sql_functions \<Rightarrow> ParsedFieldDefinition list \<Rightarrow> 'v tracker_row list \<Rightarrow> int \<Rightarrow> int \<Rightarrow>
   'v tmp_row list" where
  "tmp_table B fs tlog startTime endTime =
     map (\<lambda>d.
            \<lparr>documentId = d,
             columns = (\<lambda>k. case field_of fs k of
                              None \<Rightarrow> None
                            | Some f \<Rightarrow> aggregate B f (group_rows tlog startTime endTime d)),
             createdCount = window_count CREATED tlog startTime endTime d,
             deletedCount = window_count DELETED tlog startTime endTime d\<rparr>)
         (remdups (map documentId (filter (selected tlog startTime endTime) tlog)))"

text \<open>\<^verbatim>\<open>INSERT INTO main SELECT ... FROM tmp WHERE createdCount > deletedCount AND NOT EXISTS (...)\<close>.\<close>

definition has_row :: "('v, 'z) row_scheme list \<Rightarrow> string \<Rightarrow> bool" where
  "has_row table d \<longleftrightarrow> (\<exists>i \<in> set table. documentId i = d)"

text \<open>The rows of a table that carry a given document id.\<close>

definition rows_of :: "('v, 'z) row_scheme list \<Rightarrow> string \<Rightarrow> ('v, 'z) row_scheme list" where
  "rows_of table d = filter (\<lambda>r. documentId r = d) table"

definition inserted_row ::
  "'v sql_functions \<Rightarrow> ParsedFieldDefinition list \<Rightarrow> 'v tmp_row \<Rightarrow> 'v row" where
  "inserted_row B fs t =
     \<lparr>documentId = documentId t,
      columns = (\<lambda>k. case field_of fs k of
                       None \<Rightarrow> None
                     | Some f \<Rightarrow> main_value B f (columns t k))\<rparr>"

definition INSERT_rows ::
  "'v sql_functions \<Rightarrow> ParsedFieldDefinition list \<Rightarrow> 'v tmp_row list \<Rightarrow> 'v row list \<Rightarrow> 'v row list" where
  "INSERT_rows B fs tmp table =
     map (inserted_row B fs)
       (filter (\<lambda>t. deletedCount t < createdCount t \<and> \<not> has_row table (documentId t)) tmp)"

definition INSERT_main ::
  "'v sql_functions \<Rightarrow> ParsedFieldDefinition list \<Rightarrow> 'v tmp_row list \<Rightarrow> 'v row list \<Rightarrow> 'v row list" where
  "INSERT_main B fs tmp table = table @ INSERT_rows B fs tmp table"

text \<open>\<^verbatim>\<open>DELETE main i WHERE EXISTS (SELECT * FROM tmp n WHERE i.documentId = n.documentId AND n.deletedCount > n.createdCount)\<close>.\<close>

definition DELETE_main :: "'v tmp_row list \<Rightarrow> 'v row list \<Rightarrow> 'v row list" where
  "DELETE_main tmp table =
     filter (\<lambda>i. \<not> (\<exists>n \<in> set tmp. documentId i = documentId n \<and> createdCount n < deletedCount n))
       table"

text \<open>
  \<^verbatim>\<open>UPDATE main i SET key = IF(n.key is not NULL, ..., i.key), ... FROM tmp n WHERE i.documentId = n.documentId\<close>.
\<close>

definition updated_row ::
  "'v sql_functions \<Rightarrow> ParsedFieldDefinition list \<Rightarrow> 'v tmp_row \<Rightarrow> 'v row \<Rightarrow> 'v row" where
  "updated_row B fs n i =
     i\<lparr>columns := (\<lambda>k. case field_of fs k of
                          None \<Rightarrow> columns i k
                        | Some f \<Rightarrow>
                            (case columns n k of
                               None \<Rightarrow> columns i k
                             | Some v \<Rightarrow> main_value B f (Some v)))\<rparr>"

definition UPDATE_main ::
  "'v sql_functions \<Rightarrow> ParsedFieldDefinition list \<Rightarrow> 'v tmp_row list \<Rightarrow> 'v row list \<Rightarrow> 'v row list" where
  "UPDATE_main B fs tmp table =
     map (\<lambda>i. case find (\<lambda>n. documentId i = documentId n) tmp of
                 None \<Rightarrow> i
               | Some n \<Rightarrow> updated_row B fs n i)
       table"

text \<open>The transaction: \<^verbatim>\<open>tmp\<close>, then \<^verbatim>\<open>INSERT\<close>, \<^verbatim>\<open>DELETE\<close>, \<^verbatim>\<open>UPDATE\<close> in this order.\<close>

definition run_query ::
  "'v sql_functions \<Rightarrow> ParsedFieldDefinition list \<Rightarrow> 'v tracker_row list \<Rightarrow> int \<Rightarrow> int \<Rightarrow>
   'v row list \<Rightarrow> 'v row list" where
  "run_query B fs tlog startTime endTime table =
     (let tmp = tmp_table B fs tlog startTime endTime
      in UPDATE_main B fs tmp (DELETE_main tmp (INSERT_main B fs tmp table)))"

text \<open>
  A tracker table in which the columns of every entry older than its
  document's latest \<^verbatim>\<open>CREATED\<close> entry are replaced by arbitrary ones.
\<close>

definition overwrite_stale ::
  "'v tracker_row list \<Rightarrow> ('v tracker_row \<Rightarrow> string \<Rightarrow> 'v option) \<Rightarrow> 'v tracker_row \<Rightarrow>
   'v tracker_row" where
  "overwrite_stale tlog g n =
     (if timestamp n < latest_created tlog (documentId n) then n\<lparr>columns := g n\<rparr> else n)"

subsection \<open>The run and the scheduled function\<close>

text \<open>
  The world a run works on: the settings documents of \<^verbatim>\<open>bq-sync\<close> (their
  \<^verbatim>\<open>lastRunDate\<close>), the tracker and main tables by dataset and table id, and
  the number of times the clock has been read.  The environment gives the
  \<open>k\<close>-th reading of \<^verbatim>\<open>DateTime.now()\<close>, the calendar subtraction of a hundred
  years, the warehouse functions, and which of the three awaited calls of a
  configuration's run reject.
\<close>

datatype io_call = SettingsGet | QueryJob | SettingsSet

record 'v world =
  settings :: "string \<rightharpoonup> int"
  trackerTables :: "string \<times> string \<Rightarrow> 'v tracker_row list"
  mainTables :: "string \<times> string \<Rightarrow> 'v row list"
  ticks :: nat

record 'v environment =
  instanceId :: string
  clock :: "nat \<Rightarrow> int"
  minus_100_years :: "int \<Rightarrow> int"
  sql :: "'v sql_functions"
  rejects :: "string \<Rightarrow> io_call \<Rightarrow> bool"

definition now :: "'v environment \<Rightarrow> 'v world \<Rightarrow> int \<times> 'v world" where
  "now E w = (clock E (ticks w), w\<lparr>ticks := ticks w + 1\<rparr>)"

definition settings_key :: "'v environment \<Rightarrow> RuntimeCollectionConfig \<Rightarrow> string" where
  "settings_key E config = instanceId E @ ''-'' @ config_id config"

text \<open>
  \<^verbatim>\<open>endTime\<close> and \<^verbatim>\<open>startTime\<close> as the run computes them, with the world after
  the clock readings.  A stored \<^verbatim>\<open>lastRunDate\<close> is parsed and printed again,
  which leaves it as it is.
\<close>

definition window :: "'v environment \<Rightarrow> RuntimeCollectionConfig \<Rightarrow> 'v world \<Rightarrow> (int \<times> int) \<times> 'v world" where
  "window E config w =
     (let (endTime, w1) = now E w
      in case settings w (settings_key E config) of
           Some lastRunDate \<Rightarrow> ((lastRunDate, endTime), w1)
         | None \<Rightarrow> (let (t, w2) = now E w1 in ((minus_100_years E t, endTime), w2)))"

definition syncTrackerToMainTable ::
  "'v environment \<Rightarrow> RuntimeCollectionConfig \<Rightarrow> 'v world \<Rightarrow> (error + unit) \<times> 'v world" where
  "syncTrackerToMainTable E config w =
     (if rejects E (config_id config) SettingsGet then (Inl StoreError, w)
      else
        let ((startTime, endTime), w1) = window E config w
        in if rejects E (config_id config) QueryJob then (Inl WarehouseError, w1)
           else
             let main = (datasetId config, tableId config);
                 tracker = (datasetId config, trackerTableId config);
                 w2 = w1\<lparr>mainTables := (mainTables w1)
                           (main := run_query (sql E) (config_fields config)
                                      (trackerTables w1 tracker) startTime endTime
                                      (mainTables w1 main))\<rparr>;
                 (t, w3) = now E w2
             in if rejects E (config_id config) SettingsSet then (Inl StoreError, w3)
                else (Inr (), w3\<lparr>settings := (settings w3)(settings_key E config \<mapsto> t)\<rparr>))"

text \<open>
  \<^verbatim>\<open>fsUpdatePrimaryTable\<close>: every configuration in turn, a failure logged and
  swallowed by the \<^verbatim>\<open>try ... catch\<close>.
\<close>

fun fsUpdatePrimaryTable ::
  "'v environment \<Rightarrow> RuntimeCollectionConfig list \<Rightarrow> 'v world \<Rightarrow> 'v world" where
  "fsUpdatePrimaryTable E [] w = w"
| "fsUpdatePrimaryTable E (config # rest) w =
     fsUpdatePrimaryTable E rest (snd (syncTrackerToMainTable E config w))"


section \<open>Sample data\<close>

text \<open>
  A configuration with two integer columns, a warehouse whose conversion
  functions are the identity (the samples have no \<^verbatim>\<open>ARRAY\<close> or \<^verbatim>\<open>JSON\<close> column in
  the warehouse, so they are never applied), and a clock that advances by 100
  between two readings.
\<close>

definition scalar_sql :: "int sql_functions" where
  "scalar_sql = \<lparr>ARRAY_TO_STRING = id, TO_JSON_STRING = id, SPLIT = id, PARSE_JSON = id\<rparr>"

definition plain_field :: "string \<Rightarrow> string \<Rightarrow> ParsedFieldDefinition" where
  "plain_field k ty =
     \<lparr>key = k, type = ty, formater = None, accessor = (\<lambda>d. d), method_fn = None\<rparr>"

definition entry :: "ChangeType \<Rightarrow> int \<Rightarrow> string \<Rightarrow> (string \<Rightarrow> int option) \<Rightarrow> int tracker_row" where
  "entry ct ts d cols = \<lparr>documentId = d, columns = cols, changeType = ct, timestamp = ts\<rparr>"

definition users_config :: RuntimeCollectionConfig where
  "users_config =
     \<lparr>config_id = ''users'', collectionPaths = [''users''], collectionGroup = None,
      datasetId = ''firestore_sync'', tableId = ''users'', trackerTableId = ''users_tracker'',
      datasetLocation = ''eu'',
      config_fields = [plain_field ''a'' ''INT64'', plain_field ''b'' ''INT64''],
      backfill = True, includeParentIdInDocumentId = False, transformUrl = None\<rparr>"

definition sample_env :: "int environment" where
  "sample_env =
     \<lparr>instanceId = ''bq'', clock = (\<lambda>k. 100 + 100 * int k),
      minus_100_years = (\<lambda>t. t - 3155760000000), sql = scalar_sql,
      rejects = (\<lambda>c call. False)\<rparr>"

text \<open>
  A platform whose webhook rejects the documents \<open>a\<close> and \<open>b\<close> and echoes
  every other one; the remaining functions give fixed answers.
\<close>

definition sample_platform :: platform where
  "sample_platform =
     \<lparr>fetch = (\<lambda>url body.
                 if get_prop body ''documentId'' = Inr (Str ''a'') \<or>
                    get_prop body ''documentId'' = Inr (Str ''b'')
                 then Inl TransformError else Inr body),
      JSON_stringify = (\<lambda>v. case v of Undefined \<Rightarrow> None | _ \<Rightarrow> Some ''{}''),
      pointer_get = (\<lambda>v p. None),
      toISOString = (\<lambda>v. None),
      ToString = (\<lambda>v. case v of Str s \<Rightarrow> s | _ \<Rightarrow> []),
      bq_insert = (\<lambda>rows. True)\<rparr>"

definition schema :: "ParsedFieldDefinition list" where
  "schema = [plain_field ''a'' ''INT64'', plain_field ''b'' ''INT64'']"

definition cols :: "int option \<Rightarrow> int option \<Rightarrow> string \<Rightarrow> int option" where
  "cols a b k = (if k = ''a'' then a else if k = ''b'' then b else None)"


definition merge_log :: "int tracker_row list" where
  "merge_log =
     [entry CREATED 1 ''x'' (cols (Some 1) (Some 2)),
      entry UPDATED 2 ''x'' (cols None (Some 3)),
      entry CREATED 0 ''x'' (cols (Some 9) (Some 9))]"

definition shadowed_log :: "int tracker_row list" where
  "shadowed_log =
     [entry CREATED 1 ''x'' (cols (Some 1) (Some 2)),
      entry CREATED 2 ''x'' (cols None (Some 3))]"

text \<open>
  A schema with one \<^verbatim>\<open>ARRAY\<close> column, and a warehouse whose \<^verbatim>\<open>ARRAY_TO_STRING\<close>
  gives a value for a column that is null as well.
\<close>

definition blank_sql :: "int sql_functions" where
  "blank_sql =
     \<lparr>ARRAY_TO_STRING = (\<lambda>x. case x of None \<Rightarrow> Some 0 | Some v \<Rightarrow> Some v),
      TO_JSON_STRING = id, SPLIT = id, PARSE_JSON = id\<rparr>"

definition tag_schema :: "ParsedFieldDefinition list" where
  "tag_schema = [plain_field ''tags'' ''ARRAY'']"

definition tag_cols :: "int option \<Rightarrow> string \<Rightarrow> int option" where
  "tag_cols v k = (if k = ''tags'' then v else None)"

definition tags_log :: "int tracker_row list" where
  "tags_log =
     [entry CREATED 1 ''x'' (tag_cols (Some 5)),
      entry UPDATED 2 ''x'' (tag_cols None)]"

definition delete_log :: "int tracker_row list" where
  "delete_log = [entry DELETED 3 ''x'' (cols None None)]"

definition tie_log :: "int tracker_row list" where
  "tie_log =
     [entry CREATED 1 ''x'' (cols None (Some 2)),
      entry DELETED 3 ''x'' (cols None None)]"

definition recreated_log :: "int tracker_row list" where
  "recreated_log =
     [entry CREATED 1 ''x'' (cols (Some 1) (Some 2)),
      entry DELETED 2 ''x'' (cols None None),
      entry CREATED 3 ''x'' (cols None (Some 5))]"

definition existing_row :: "int row" where
  "existing_row = \<lparr>documentId = ''x'', columns = cols (Some 7) (Some 7)\<rparr>"

text \<open>
  Two worlds before a run of \<open>users_config\<close> under \<open>sample_env\<close>, whose
  first clock reading is 100: one entry stamped 100 after a checkpoint 0, and
  one entry stamped 150 after a checkpoint 50.
\<close>

definition boundary_world :: "int world" where
  "boundary_world =
     \<lparr>settings = [''bq-users'' \<mapsto> 0],
      trackerTables = (\<lambda>t. if t = (''firestore_sync'', ''users_tracker'')
                           then [entry CREATED 100 ''x'' (cols (Some 1) (Some 2))] else []),
      mainTables = (\<lambda>t. []),
      ticks = 0\<rparr>"

definition late_world :: "int world" where
  "late_world =
     \<lparr>settings = [''bq-users'' \<mapsto> 50],
      trackerTables = (\<lambda>t. if t = (''firestore_sync'', ''users_tracker'')
                           then [entry CREATED 150 ''x'' (cols (Some 1) (Some 2))] else []),
      mainTables = (\<lambda>t. []),
      ticks = 0\<rparr>"

text \<open>A collection of five documents behind a transform webhook.\<close>

definition snapshot :: "string \<Rightarrow> QueryDocumentSnapshot" where
  "snapshot i =
     \<lparr>doc_id = i, doc_data = Obj [(''email'', Str (i @ ''@example.org''))],
      doc_parent_id = Some ''org''\<rparr>"

definition webhook_config :: RuntimeCollectionConfig where
  "webhook_config =
     \<lparr>config_id = ''members'', collectionPaths = [''members''], collectionGroup = Some ''members'',
      datasetId = ''firestore_sync'', tableId = ''members'', trackerTableId = ''members_tracker'',
      datasetLocation = ''eu'',
      config_fields = [\<lparr>key = ''email'', type = ''STRING'', formater = None,
                         accessor = (\<lambda>d. case get_prop d ''email'' of Inr v \<Rightarrow> v | Inl e \<Rightarrow> Undefined),
                         method_fn = None\<rparr>],
      backfill = True, includeParentIdInDocumentId = False,
      transformUrl = Some ''https://transform.example.org''\<rparr>"

definition members_store :: firestore where
  "members_store =
     \<lparr>fs_collection = (\<lambda>p. if p = ''members''
                             then map snapshot [''a'', ''b'', ''c'', ''d'', ''e''] else []),
      fs_collectionGroup = (\<lambda>g. if g = ''members''
                                  then map snapshot [''a'', ''b'', ''c'', ''d'', ''e''] else [])\<rparr>"


section \<open>Decimal strings round-trip\<close>

lemma digit_char_props:
  assumes "d < 10"
  shows "is_digit (digit_char d)" and "digit_val (digit_char d) = d"
proof -
  from assms have "d \<in> {0, 1, 2, 3, 4, 5, 6, 7, 8, 9}" by auto
  then show "is_digit (digit_char d)" and "digit_val (digit_char d) = d"
    by (auto simp: is_digit_def digit_char_def digit_val_def)
qed

lemma digits_val_snoc: "digits_val (xs @ [c]) = 10 * digits_val xs + digit_val c"
  by (simp add: digits_val_def)

lemma digits_val_append:
  "digits_val (xs @ ys) = digits_val xs * 10 ^ length ys + digits_val ys"
proof (induction ys rule: rev_induct)
  case Nil
  show ?case by (simp add: digits_val_def)
next
  case (snoc y ys)
  have "digits_val (xs @ ys @ [y]) = 10 * digits_val (xs @ ys) + digit_val y"
    using digits_val_snoc [of "xs @ ys" y] by simp
  with snoc show ?case
    by (simp add: digits_val_snoc algebra_simps)
qed

lemma show_nat_digits: "\<forall>c \<in> set (show_nat n). is_digit c"
proof (induction n rule: show_nat.induct)
  case (1 n)
  show ?case
  proof (cases "n < 10")
    case True
    then show ?thesis
      by (subst show_nat.simps) (simp add: digit_char_props)
  next
    case False
    have "n mod 10 < 10" by simp
    with False 1 show ?thesis
      by (subst show_nat.simps) (simp add: digit_char_props)
  qed
qed

lemma digits_val_show_nat: "digits_val (show_nat n) = n"
proof (induction n rule: show_nat.induct)
  case (1 n)
  show ?case
  proof (cases "n < 10")
    case True
    then show ?thesis
      by (subst show_nat.simps) (simp add: digits_val_def digit_char_props)
  next
    case False
    have "n mod 10 < 10" by simp
    with False 1 show ?thesis
      by (subst show_nat.simps) (simp add: digits_val_snoc digit_char_props)
  qed
qed

lemma is_digit_0: "is_digit CHR ''0''"
  by (simp add: is_digit_def)

lemma digits_val_replicate_0: "digits_val (replicate k CHR ''0'' @ m) = digits_val m"
proof -
  have "digits_val (replicate k CHR ''0'') = 0"
    by (induction k) (simp_all add: digits_val_def digit_val_def)
  then show ?thesis
    by (simp add: digits_val_append)
qed

text \<open>Digits, a point and digits again parse to the number they spell.\<close>

lemma unsigned_literal_fixed:
  assumes a: "\<forall>c \<in> set a. is_digit c" and b: "\<forall>c \<in> set b. is_digit c" and ne: "a \<noteq> []"
  shows "unsigned_literal (a @ ''.'' @ b) =
           Fin (of_nat (digits_val (a @ b)) / 10 ^ length b)"
proof -
  let ?u = "a @ ''.'' @ b"
  have nd: "\<not> is_digit CHR ''.''" "\<not> is_digit CHR ''I''"
    by (simp_all add: is_digit_def)
  from ne obtain c a' where a': "a = c # a'" by (cases a) auto
  with a nd have "c \<noteq> CHR ''I''" by auto
  then have inf: "take 8 ?u \<noteq> ''Infinity''"
    by (simp add: a')
  have ip: "takeWhile is_digit ?u = a"
    using a nd by simp
  have r1: "dropWhile is_digit ?u = ''.'' @ b"
    using a nd by simp
  have fp: "takeWhile is_digit b = b" and r2: "dropWhile is_digit b = []"
    using b by simp_all
  have "unsigned_literal ?u =
          Fin ((of_nat (digits_val a) + of_nat (digits_val b) / 10 ^ length b) * pow10 (exponent_part []))"
    using inf ne unfolding unsigned_literal_def ip r1 Let_def
    by (simp add: fp r2)
  also have "\<dots> = Fin (of_nat (digits_val (a @ b)) / 10 ^ length b)"
    by (simp add: exponent_part_def pow10_def digits_val_append add_divide_distrib)
  finally show ?thesis .
qed

lemma parse_fixed_digits:
  assumes "0 < f"
  shows "unsigned_literal (fixed_digits n f) = Fin (of_nat n / 10 ^ f)"
proof -
  define m where "m = (if length (show_nat n) \<le> f
     then replicate (f + 1 - length (show_nat n)) CHR ''0'' @ show_nat n else show_nat n)"
  have dig: "\<forall>c \<in> set m. is_digit c"
    using show_nat_digits [of n] by (auto simp: m_def is_digit_0)
  have len: "f < length m"
    by (auto simp: m_def)
  have val: "digits_val m = n"
    by (simp add: m_def digits_val_replicate_0 digits_val_show_nat)
  let ?a = "take (length m - f) m" and ?b = "drop (length m - f) m"
  have "\<forall>c \<in> set ?a. is_digit c" "\<forall>c \<in> set ?b. is_digit c"
    using dig by (auto dest: in_set_takeD in_set_dropD)
  moreover have "?a \<noteq> []" using len by auto
  ultimately have "unsigned_literal (?a @ ''.'' @ ?b) =
      Fin (of_nat (digits_val (?a @ ?b)) / 10 ^ length ?b)"
    by (rule unsigned_literal_fixed)
  moreover have "length ?b = f" using len by simp
  moreover have "fixed_digits n f = ?a @ ''.'' @ ?b"
    by (simp add: fixed_digits_def m_def Let_def)
  ultimately show ?thesis
    by (simp add: val)
qed

lemma fixed_digits_head: "\<exists>c r. fixed_digits n f = c # r \<and> is_digit c"
proof -
  define m where "m = (if length (show_nat n) \<le> f
     then replicate (f + 1 - length (show_nat n)) CHR ''0'' @ show_nat n else show_nat n)"
  have dig: "\<forall>c \<in> set m. is_digit c"
    using show_nat_digits [of n] by (auto simp: m_def is_digit_0)
  have len: "f < length m"
    by (auto simp: m_def)
  have eq: "fixed_digits n f = take (length m - f) m @ ''.'' @ drop (length m - f) m"
    by (simp add: fixed_digits_def m_def Let_def)
  from len obtain c m' where m: "m = c # m'" by (cases m) auto
  with len have "take (length m - f) m = c # take (length m' - f) m'"
    by (simp add: take_Cons' Suc_diff_le)
  with eq dig m show ?thesis by auto
qed

lemma toFixed_Fin:
  "toFixed (Fin q) 2 =
     (if q < 0 then ''-'' else '''') @ fixed_digits (nat \<lfloor>\<bar>q\<bar> * 100 + 1 / 2\<rfloor>) 2"
  by (simp add: toFixed_def fixed_digits_def Let_def)

text \<open>
  Printing a finite number with two fraction digits and parsing it back
  gives the nearest multiple of a hundredth.
\<close>

lemma parseFloat_toFixed:
  "parseFloat (toFixed (Fin q) 2) =
     Fin ((if q < 0 then - 1 else 1) * of_nat (nat \<lfloor>\<bar>q\<bar> * 100 + 1 / 2\<rfloor>) / 100)"
proof -
  let ?n = "nat \<lfloor>\<bar>q\<bar> * 100 + 1 / 2\<rfloor>"
  obtain c r where cr: "fixed_digits ?n 2 = c # r" and c: "is_digit c"
    using fixed_digits_head by blast
  from c have nsp: "\<not> is_space c" and nsg: "c \<noteq> CHR ''-''" "c \<noteq> CHR ''+''"
    by (auto simp: is_digit_def is_space_def)
  have lit: "unsigned_literal (c # r) = Fin (of_nat ?n / 100)"
    using parse_fixed_digits [of 2 ?n] by (simp add: cr)
  show ?thesis
  proof (cases "q < 0")
    case True
    then have tf: "toFixed (Fin q) 2 = ''-'' @ c # r"
      by (simp only: toFixed_Fin cr if_True)
    have "\<not> is_space CHR ''-''" by (simp add: is_space_def)
    then have "parseFloat (''-'' @ c # r) = negate (unsigned_literal (c # r))"
      by (simp add: parseFloat_def)
    then have "parseFloat (toFixed (Fin q) 2) = Fin (- (of_nat ?n / 100))"
      by (simp only: tf lit negate.simps)
    with True show ?thesis
      by simp
  next
    case False
    then have tf: "toFixed (Fin q) 2 = c # r"
      by (simp only: toFixed_Fin cr if_False append_Nil)
    have "parseFloat (c # r) = unsigned_literal (c # r)"
      using nsp nsg by (simp add: parseFloat_def)
    then have "parseFloat (toFixed (Fin q) 2) = Fin (of_nat ?n / 100)"
      by (simp only: tf lit)
    with False show ?thesis
      by simp
  qed
qed

lemma parseFloat_Infinity:
  "parseFloat ''Infinity'' = PosInf" "parseFloat ''-Infinity'' = NegInf"
  by (simp_all add: parseFloat_def is_space_def unsigned_literal_def)

section \<open>Numeric coercion\<close>

lemma two_decimals_iff: "two_decimals q \<longleftrightarrow> (\<exists>n::int. q * 100 = of_int n)"
  by (simp add: two_decimals_def)

lemma isInteger_iff: "isInteger (Num (Fin q)) \<longleftrightarrow> (\<exists>n::int. q = of_int n)"
  by simp

lemma isInteger_two_decimals:
  assumes "isInteger (Num (Fin q))"
  shows "two_decimals q"
proof -
  from assms obtain n :: int where "q = of_int n"
    unfolding isInteger_iff by blast
  then have "q * 100 = of_int (n * 100)" by simp
  then show ?thesis
    unfolding two_decimals_iff by blast
qed

text \<open>What the switch hands to \<open>safeFloat\<close> is null or a number.\<close>

lemma format_NUMERIC_cases:
  "format_NUMERIC f v = safeFloat Null \<or> (\<exists>x. format_NUMERIC f v = safeFloat (Num x))"
proof -
  define v1 where "v1 = apply_method f v"
  define v2 where "v2 = (case v1 of Str s \<Rightarrow> Num (parseFloat s) | _ \<Rightarrow> v1)"
  define v3 where "v3 = (if \<not> truthy v2 \<and> v2 \<noteq> Num (Fin 0) then Null else v2)"
  define v4 where "v4 = (if typeof v3 \<noteq> ''number'' then Null else v3)"
  have eq: "format_NUMERIC f v = safeFloat v4"
    unfolding format_NUMERIC_def Let_def v4_def v3_def v2_def v1_def by (rule refl)
  have "v4 = Null \<or> (\<exists>x. v4 = Num x)"
    unfolding v4_def by (cases v3) simp_all
  with eq show ?thesis by auto
qed

lemma safeFloat_Null: "safeFloat Null = Inr Null"
  by (simp add: safeFloat_def)

lemma safeFloat_Num:
  "\<exists>out. safeFloat (Num x) = Inr out \<and>
     (out = Null \<or> out = Num PosInf \<or> out = Num NegInf \<or>
      (\<exists>q. out = Num (Fin q) \<and> two_decimals q))"
proof (cases x)
  case NaN
  then show ?thesis by (simp add: safeFloat_def)
next
  case PosInf
  then show ?thesis by (simp add: safeFloat_def toFixed_def parseFloat_Infinity)
next
  case NegInf
  then show ?thesis by (simp add: safeFloat_def toFixed_def parseFloat_Infinity)
next
  case (Fin q)
  show ?thesis
  proof (cases "isInteger (Num (Fin q))")
    case True
    then have "safeFloat (Num (Fin q)) = Inr (Num (Fin q))"
      by (auto simp: safeFloat_def)
    with True Fin show ?thesis
      by (simp add: isInteger_two_decimals)
  next
    case False
    then have "q \<noteq> 0" by auto
    define r where
      "r = (if q < 0 then - 1 else 1) * of_nat (nat \<lfloor>\<bar>q\<bar> * 100 + 1 / 2\<rfloor>) / (100 :: rat)"
    from False \<open>q \<noteq> 0\<close> have "safeFloat (Num (Fin q)) = Inr (Num (parseFloat (toFixed (Fin q) 2)))"
      by (simp add: safeFloat_def)
    then have out: "safeFloat (Num x) = Inr (Num (Fin r))"
      unfolding Fin parseFloat_toFixed r_def .
    have "two_decimals r"
      unfolding two_decimals_iff r_def
      by (rule exI [of _ "(if q < 0 then - 1 else 1) * int (nat \<lfloor>\<bar>q\<bar> * 100 + 1 / 2\<rfloor>)"]) simp
    with out show ?thesis
      by blast
  qed
qed

lemma format_NUMERIC_output:
  "\<exists>out. format_NUMERIC f v = Inr out \<and>
     (out = Null \<or> out = Num PosInf \<or> out = Num NegInf \<or>
      (\<exists>q. out = Num (Fin q) \<and> two_decimals q))"
  using format_NUMERIC_cases [of f v] safeFloat_Num
  by (auto simp: safeFloat_Null)

section \<open>Arrays and pages\<close>

lemma set_flat:
  "x \<in> set (flat xs) \<longleftrightarrow>
     (x \<in> set xs \<and> \<not> isArray x) \<or> (\<exists>zs. Arr zs \<in> set xs \<and> x \<in> set zs)"
  by (induction xs rule: flat.induct) auto

lemma settled_rows_empty:
  "settled_rows (map coerce xs) = [] \<longleftrightarrow> (\<forall>d \<in> set xs. isl (coerce d))"
proof (induction xs)
  case Nil
  show ?case by simp
next
  case (Cons x xs)
  then show ?case by (cases "coerce x") simp_all
qed

text \<open>A page without a coerced row ends the loop where it stands.\<close>

lemma backfill_loop_empty_page:
  assumes "\<forall>d \<in> set (take batchSize remaining). isl (coerce d)"
  shows "backfill_loop coerce ins batchSize remaining st =
           st\<lparr>total := total st + length (take (batchSize + 1) remaining)\<rparr>"
proof -
  have "take batchSize (take (batchSize + 1) remaining) = take batchSize remaining"
    by (simp add: min_def)
  with assms have "settled_rows (map coerce (take batchSize (take (batchSize + 1) remaining))) = []"
    by (simp only: settled_rows_empty)
  then show ?thesis
    by (subst backfill_loop.simps) (simp add: Let_def)
qed


section \<open>The temporary table\<close>

lemma has_row_rows_of: "has_row table d \<longleftrightarrow> rows_of table d \<noteq> []"
  by (auto simp: has_row_def rows_of_def filter_empty_conv)

lemma tmp_table_ids:
  "map documentId (tmp_table B fs tlog s e) =
     remdups (map documentId (filter (selected tlog s e) tlog))"
  by (simp add: tmp_table_def comp_def)

lemma tmp_table_distinct: "distinct (map documentId (tmp_table B fs tlog s e))"
  by (simp add: tmp_table_ids)

lemma tmp_table_row:
  assumes "t \<in> set (tmp_table B fs tlog s e)"
  shows "createdCount t = window_count CREATED tlog s e (documentId t)"
    and "deletedCount t = window_count DELETED tlog s e (documentId t)"
    and "columns t k = (case field_of fs k of None \<Rightarrow> None
           | Some f \<Rightarrow> aggregate B f (group_rows tlog s e (documentId t)))"
    and "group_rows tlog s e (documentId t) \<noteq> []"
proof -
  let ?ds = "remdups (map documentId (filter (selected tlog s e) tlog))"
  from assms obtain d where d: "d \<in> set ?ds"
    and t: "t = \<lparr>documentId = d,
             columns = (\<lambda>k. case field_of fs k of None \<Rightarrow> None
                          | Some f \<Rightarrow> aggregate B f (group_rows tlog s e d)),
             createdCount = window_count CREATED tlog s e d,
             deletedCount = window_count DELETED tlog s e d\<rparr>"
    unfolding tmp_table_def by auto
  from t have id: "documentId t = d" by simp
  from t show "createdCount t = window_count CREATED tlog s e (documentId t)"
    by simp
  from t show "deletedCount t = window_count DELETED tlog s e (documentId t)"
    by simp
  from t show "columns t k = (case field_of fs k of None \<Rightarrow> None
           | Some f \<Rightarrow> aggregate B f (group_rows tlog s e (documentId t)))"
    unfolding id by simp
  from d obtain n where "n \<in> set tlog" "selected tlog s e n" "documentId n = d"
    by auto
  then show "group_rows tlog s e (documentId t) \<noteq> []"
    unfolding id group_rows_def by (auto simp: filter_empty_conv)
qed

lemma set_group_rows:
  "set (group_rows tlog s e d) =
     {n \<in> set tlog. documentId n = d \<and> s \<le> timestamp n \<and> timestamp n \<le> e \<and>
        latest_created tlog d \<le> timestamp n}"
  by (auto simp: group_rows_def selected_def BETWEEN_def)

lemma window_count_eq:
  "window_count ct tlog s e d =
     length (filter (\<lambda>n. documentId n = d \<and> changeType n = ct \<and>
                        s \<le> timestamp n \<and> timestamp n \<le> e) tlog)"
proof -
  have "filter (\<lambda>sub. changeType sub = ct)
          (filter (\<lambda>sub. documentId sub = d \<and> BETWEEN (timestamp sub) s e) tlog) =
        filter (\<lambda>n. documentId n = d \<and> changeType n = ct \<and>
                     s \<le> timestamp n \<and> timestamp n \<le> e) tlog"
    unfolding filter_filter by (rule filter_cong) (auto simp: BETWEEN_def)
  then show ?thesis
    by (simp only: window_count_def COUNTIF_def)
qed

lemma field_of_key: "field_of fs k = Some f \<Longrightarrow> key f = k \<and> f \<in> set fs"
  by (auto simp: field_of_def find_Some_iff)

subsection \<open>The latest \<^verbatim>\<open>CREATED\<close> entry\<close>

lemma latest_created_ge:
  assumes "c \<in> set tlog" "documentId c = d" "changeType c = CREATED"
  shows "timestamp c \<le> latest_created tlog d"
proof -
  let ?cs = "filter (\<lambda>r. documentId r = d \<and> changeType r = CREATED) tlog"
  from assms have "c \<in> set ?cs" by simp
  then have ne: "?cs \<noteq> []" and "timestamp c \<in> timestamp ` set ?cs"
    by (auto simp del: set_filter)
  then have "timestamp c \<le> Max (timestamp ` set ?cs)"
    by (intro Max_ge) auto
  with ne show ?thesis
    by (simp add: latest_created_def MAX_timestamp_def COALESCE_def del: set_filter)
qed

lemma latest_created_epoch:
  assumes "\<not> (\<exists>c \<in> set tlog. documentId c = d \<and> changeType c = CREATED)"
  shows "latest_created tlog d = 0"
proof -
  from assms have "filter (\<lambda>r. documentId r = d \<and> changeType r = CREATED) tlog = []"
    by (auto simp: filter_empty_conv)
  then show ?thesis
    by (simp add: latest_created_def MAX_timestamp_def COALESCE_def)
qed

subsection \<open>The first value that is not null\<close>

lemma first_non_null_none:
  "OFFSET_0 (IGNORE_NULLS (map g xs)) = None \<longleftrightarrow> (\<forall>n \<in> set xs. g n = None)"
proof (induction xs)
  case Nil
  show ?case by (simp add: OFFSET_0_def)
next
  case (Cons x xs)
  then show ?case by (cases "g x") (simp_all add: OFFSET_0_def)
qed

lemma first_non_null_sorted:
  assumes "OFFSET_0 (IGNORE_NULLS (map g xs)) = Some v" and "sorted (map k xs)"
  shows "\<exists>n \<in> set xs. g n = Some v \<and> (\<forall>m \<in> set xs. g m \<noteq> None \<longrightarrow> (k n :: int) \<le> k m)"
  using assms
proof (induction xs)
  case Nil
  then show ?case by (simp add: OFFSET_0_def)
next
  case (Cons x xs)
  show ?case
  proof (cases "g x")
    case None
    with Cons.prems have "OFFSET_0 (IGNORE_NULLS (map g xs)) = Some v" and "sorted (map k xs)"
      by simp_all
    from Cons.IH [OF this] obtain n where "n \<in> set xs" "g n = Some v"
      "\<forall>m \<in> set xs. g m \<noteq> None \<longrightarrow> k n \<le> k m"
      by blast
    with None show ?thesis by auto
  next
    case (Some w)
    with Cons.prems have "w = v" by (simp add: OFFSET_0_def)
    moreover from Cons.prems have "\<forall>m \<in> set xs. k x \<le> k m" by simp
    ultimately show ?thesis using Some by auto
  qed
qed

lemma aggregate_None:
  "aggregate B f rows = None \<longleftrightarrow> (\<forall>n \<in> set rows. selection B f (columns n (key f)) = None)"
  by (simp add: aggregate_def first_non_null_none ORDER_BY_timestamp_DESC_def)

lemma aggregate_Some:
  assumes "aggregate B f rows = Some v"
  shows "\<exists>n \<in> set rows. selection B f (columns n (key f)) = Some v \<and>
           (\<forall>m \<in> set rows. selection B f (columns m (key f)) \<noteq> None \<longrightarrow>
              timestamp m \<le> timestamp n)"
proof -
  let ?xs = "ORDER_BY_timestamp_DESC rows"
  have "sorted (map (\<lambda>n. - timestamp n) ?xs)"
    by (simp add: ORDER_BY_timestamp_DESC_def)
  from first_non_null_sorted [OF assms [unfolded aggregate_def] this]
  show ?thesis
    by (simp add: ORDER_BY_timestamp_DESC_def)
qed

subsection \<open>Entries older than the latest \<^verbatim>\<open>CREATED\<close>\<close>

lemma overwrite_stale_simps [simp]:
  "documentId (overwrite_stale tlog g n) = documentId n"
  "timestamp (overwrite_stale tlog g n) = timestamp n"
  "changeType (overwrite_stale tlog g n) = changeType n"
  by (simp_all add: overwrite_stale_def)

lemma MAX_timestamp_cong:
  assumes "map timestamp xs = map timestamp ys"
  shows "MAX_timestamp xs = MAX_timestamp ys"
proof -
  from assms have "set (map timestamp xs) = set (map timestamp ys)"
    by simp
  moreover from assms have "xs = [] \<longleftrightarrow> ys = []"
    by (metis map_is_Nil_conv)
  ultimately show ?thesis
    by (simp only: MAX_timestamp_def)
qed

lemma latest_created_overwrite:
  "latest_created (map (overwrite_stale tlog0 g) tlog) d = latest_created tlog d"
proof -
  have "map timestamp (filter (\<lambda>r. documentId r = d \<and> changeType r = CREATED)
          (map (overwrite_stale tlog0 g) tlog)) =
        map timestamp (filter (\<lambda>r. documentId r = d \<and> changeType r = CREATED) tlog)"
    by (induction tlog) simp_all
  then have "MAX_timestamp (filter (\<lambda>r. documentId r = d \<and> changeType r = CREATED)
          (map (overwrite_stale tlog0 g) tlog)) =
        MAX_timestamp (filter (\<lambda>r. documentId r = d \<and> changeType r = CREATED) tlog)"
    by (rule MAX_timestamp_cong)
  then show ?thesis
    by (simp only: latest_created_def)
qed

lemma selected_overwrite_aux:
  "filter (selected (map (overwrite_stale tlog g) tlog) s e) (map (overwrite_stale tlog g) xs) =
     filter (selected tlog s e) xs"
proof (induction xs)
  case Nil
  show ?case by simp
next
  case (Cons n xs)
  have sel: "selected (map (overwrite_stale tlog g) tlog) s e (overwrite_stale tlog g n) =
               selected tlog s e n"
    by (simp add: selected_def latest_created_overwrite)
  have "selected tlog s e n \<Longrightarrow> overwrite_stale tlog g n = n"
    by (simp add: selected_def overwrite_stale_def)
  with Cons sel show ?case by auto
qed

lemma selected_overwrite:
  "filter (selected (map (overwrite_stale tlog g) tlog) s e) (map (overwrite_stale tlog g) tlog) =
     filter (selected tlog s e) tlog"
  by (rule selected_overwrite_aux)

lemma window_count_overwrite:
  "window_count ct (map (overwrite_stale tlog0 g) tlog) s e d = window_count ct tlog s e d"
  unfolding window_count_eq by (induction tlog) simp_all

lemma group_rows_overwrite:
  "group_rows (map (overwrite_stale tlog g) tlog) s e d = group_rows tlog s e d"
  by (simp only: group_rows_def selected_overwrite)

lemma tmp_table_overwrite:
  "tmp_table B fs (map (overwrite_stale tlog g) tlog) s e = tmp_table B fs tlog s e"
  unfolding tmp_table_def group_rows_overwrite selected_overwrite window_count_overwrite
  by (rule refl)

section \<open>The three statements, document by document\<close>

lemma rows_of_distinct:
  assumes "distinct (map documentId tmp)" and "t \<in> set tmp"
  shows "rows_of tmp (documentId t) = [t]"
  using assms unfolding rows_of_def
proof (induction tmp)
  case Nil
  then show ?case by simp
next
  case (Cons a tmp)
  show ?case
  proof (cases "a = t")
    case True
    with Cons.prems have "\<forall>n \<in> set tmp. documentId n \<noteq> documentId t"
      by (force simp: image_iff)
    then have "filter (\<lambda>r. documentId r = documentId t) tmp = []"
      by (simp add: filter_empty_conv)
    with True show ?thesis by simp
  next
    case False
    with Cons.prems have "t \<in> set tmp" and "documentId a \<noteq> documentId t"
      by auto
    with Cons show ?thesis by simp
  qed
qed

lemma find_distinct:
  assumes "distinct (map documentId tmp)" and "t \<in> set tmp"
  shows "find (\<lambda>n. documentId t = documentId n) tmp = Some t"
  using assms
proof (induction tmp)
  case Nil
  then show ?case by simp
next
  case (Cons a tmp)
  then show ?case by (cases "a = t") (force simp: image_iff)+
qed

lemma rows_of_INSERT_rows:
  assumes "distinct (map documentId tmp)" and "t \<in> set tmp"
  shows "rows_of (INSERT_rows B fs tmp table) (documentId t) =
           (if deletedCount t < createdCount t \<and> \<not> has_row table (documentId t)
            then [inserted_row B fs t] else [])"
proof -
  have "rows_of (INSERT_rows B fs tmp table) (documentId t) =
          map (inserted_row B fs)
            (filter (\<lambda>n. deletedCount n < createdCount n \<and> \<not> has_row table (documentId n))
               (rows_of tmp (documentId t)))"
    by (simp add: rows_of_def INSERT_rows_def filter_map comp_def inserted_row_def conj_commute)
  then show ?thesis
    by (simp add: rows_of_distinct [OF assms])
qed

lemma rows_of_INSERT_main:
  "rows_of (INSERT_main B fs tmp table) d =
     rows_of table d @ rows_of (INSERT_rows B fs tmp table) d"
  by (simp add: INSERT_main_def rows_of_def)

lemma rows_of_DELETE_main:
  assumes "distinct (map documentId tmp)" and "t \<in> set tmp"
  shows "rows_of (DELETE_main tmp table) (documentId t) =
           (if createdCount t < deletedCount t then [] else rows_of table (documentId t))"
proof -
  have eq: "(\<exists>n \<in> set tmp. documentId t = documentId n \<and> createdCount n < deletedCount n)
              \<longleftrightarrow> createdCount t < deletedCount t"
    using assms by (metis distinct_map inj_onD)
  have "rows_of (DELETE_main tmp table) (documentId t) =
          filter (\<lambda>i. \<not> (\<exists>n \<in> set tmp. documentId t = documentId n \<and>
                                        createdCount n < deletedCount n))
            (rows_of table (documentId t))"
    unfolding rows_of_def DELETE_main_def filter_filter
    by (rule filter_cong) auto
  then show ?thesis
    by (simp add: eq)
qed

lemma documentId_updated_row [simp]: "documentId (updated_row B fs n i) = documentId i"
  by (simp add: updated_row_def)

lemma rows_of_UPDATE_main:
  assumes "distinct (map documentId tmp)" and "t \<in> set tmp"
  shows "rows_of (UPDATE_main B fs tmp table) (documentId t) =
           map (updated_row B fs t) (rows_of table (documentId t))"
proof (induction table)
  case Nil
  show ?case by (simp add: rows_of_def UPDATE_main_def)
next
  case (Cons i table)
  have step: "UPDATE_main B fs tmp (i # table) =
      (case find (\<lambda>n. documentId i = documentId n) tmp of
         None \<Rightarrow> i | Some n \<Rightarrow> updated_row B fs n i) # UPDATE_main B fs tmp table"
    by (simp add: UPDATE_main_def)
  have id: "documentId (case find (\<lambda>n. documentId i = documentId n) tmp of
         None \<Rightarrow> i | Some n \<Rightarrow> updated_row B fs n i) = documentId i"
    by (simp split: option.splits)
  show ?case
  proof (cases "documentId i = documentId t")
    case True
    then have "find (\<lambda>n. documentId i = documentId n) tmp = Some t"
      using find_distinct [OF assms] by simp
    with True Cons.IH show ?thesis
      unfolding step by (simp add: rows_of_def)
  next
    case False
    with Cons.IH id show ?thesis
      unfolding step by (simp add: rows_of_def)
  qed
qed

lemma updated_inserted_row [simp]:
  "updated_row B fs t (inserted_row B fs t) = inserted_row B fs t"
  by (auto simp: updated_row_def inserted_row_def fun_eq_iff split: option.splits)

text \<open>
  The rows of an aggregated document after the transaction: none when more
  entries deleted than created it; otherwise its previous rows, updated, and
  the inserted row when it had none and more entries created than deleted it.
\<close>

lemma rows_of_run_query:
  assumes "t \<in> set (tmp_table B fs tlog s e)"
  shows "rows_of (run_query B fs tlog s e table) (documentId t) =
           (if createdCount t < deletedCount t then []
            else map (updated_row B fs t) (rows_of table (documentId t)) @
                 (if deletedCount t < createdCount t \<and> \<not> has_row table (documentId t)
                  then [inserted_row B fs t] else []))"
  using assms
  by (simp add: run_query_def Let_def rows_of_UPDATE_main rows_of_DELETE_main rows_of_INSERT_main
      rows_of_INSERT_rows tmp_table_distinct)

section \<open>The run\<close>

lemma window_fst:
  "fst (window E config w) =
     (case settings w (settings_key E config) of
        Some l \<Rightarrow> (l, clock E (ticks w))
      | None \<Rightarrow> (minus_100_years E (clock E (ticks w + 1)), clock E (ticks w)))"
  by (simp add: window_def now_def split: option.splits)

lemma window_snd:
  "snd (window E config w) =
     w\<lparr>ticks := (case settings w (settings_key E config) of
                   Some l \<Rightarrow> ticks w + 1 | None \<Rightarrow> ticks w + 2)\<rparr>"
  by (simp add: window_def now_def split: option.splits)

lemma sync_eq:
  "syncTrackerToMainTable E config w =
     (if rejects E (config_id config) SettingsGet then (Inl StoreError, w)
      else if rejects E (config_id config) QueryJob
      then (Inl WarehouseError, snd (window E config w))
      else
        let w1 = snd (window E config w);
            w2 = w1\<lparr>mainTables := (mainTables w1)
                    ((datasetId config, tableId config) :=
                       run_query (sql E) (config_fields config)
                         (trackerTables w1 (datasetId config, trackerTableId config))
                         (fst (fst (window E config w))) (snd (fst (window E config w)))
                         (mainTables w1 (datasetId config, tableId config)))\<rparr>
        in if rejects E (config_id config) SettingsSet
           then (Inl StoreError, w2\<lparr>ticks := ticks w2 + 1\<rparr>)
           else (Inr (), w2\<lparr>ticks := ticks w2 + 1,
                            settings := (settings w2)(settings_key E config \<mapsto> clock E (ticks w2))\<rparr>))"
  by (simp add: syncTrackerToMainTable_def now_def Let_def split: prod.splits)

text \<open>A run that fails leaves every checkpoint as it was.\<close>

lemma sync_failure_keeps_settings:
  assumes "fst (syncTrackerToMainTable E config w) = Inl err"
  shows "settings (snd (syncTrackerToMainTable E config w)) = settings w"
  using assms by (auto simp: sync_eq window_snd Let_def split: if_splits)

text \<open>A run that succeeds stores the clock reading taken after the query.\<close>

lemma sync_success_settings:
  assumes "fst (syncTrackerToMainTable E config w) = Inr ()"
  shows "settings (snd (syncTrackerToMainTable E config w)) =
           (settings w)(settings_key E config \<mapsto> clock E (ticks (snd (window E config w))))"
  using assms by (auto simp: sync_eq window_snd Let_def split: if_splits)

lemma sync_success_iff:
  "fst (syncTrackerToMainTable E config w) = Inr () \<longleftrightarrow>
     \<not> rejects E (config_id config) SettingsGet \<and> \<not> rejects E (config_id config) QueryJob \<and>
     \<not> rejects E (config_id config) SettingsSet"
  by (auto simp: sync_eq Let_def)

text \<open>
  The scheduled function runs every configuration: the world after it is
  the one the runs produce in turn, whatever their outcomes.
\<close>

lemma fsUpdatePrimaryTable_append:
  "fsUpdatePrimaryTable E (cs @ ds) w = fsUpdatePrimaryTable E ds (fsUpdatePrimaryTable E cs w)"
  by (induction cs arbitrary: w) simp_all

lemma sync_settings_dom:
  "dom (settings w) \<subseteq> dom (settings (snd (syncTrackerToMainTable E config w)))"
  by (auto simp: sync_eq window_snd Let_def)

lemma fsUpdatePrimaryTable_settings_dom:
  "dom (settings w) \<subseteq> dom (settings (fsUpdatePrimaryTable E cs w))"
proof (induction cs arbitrary: w)
  case Nil
  show ?case by simp
next
  case (Cons c cs)
  from sync_settings_dom Cons.IH show ?case
    by (simp only: fsUpdatePrimaryTable.simps) (rule subset_trans)
qed

text \<open>
  A configuration none of whose calls reject has its checkpoint stored by
  the scheduled function, whatever happens to the configurations before and
  after it.
\<close>

lemma fsUpdatePrimaryTable_reaches_every_configuration:
  assumes "config \<in> set cs"
    and "\<not> rejects E (config_id config) SettingsGet"
    and "\<not> rejects E (config_id config) QueryJob"
    and "\<not> rejects E (config_id config) SettingsSet"
  shows "settings_key E config \<in> dom (settings (fsUpdatePrimaryTable E cs w))"
proof -
  from assms(1) obtain as bs where cs: "cs = as @ config # bs"
    by (auto simp: in_set_conv_decomp)
  let ?w = "fsUpdatePrimaryTable E as w"
  from assms(2-4) have "fst (syncTrackerToMainTable E config ?w) = Inr ()"
    by (simp add: sync_success_iff)
  then have "settings_key E config \<in> dom (settings (snd (syncTrackerToMainTable E config ?w)))"
    by (simp add: sync_success_settings)
  with fsUpdatePrimaryTable_settings_dom [of "snd (syncTrackerToMainTable E config ?w)" E bs]
  show ?thesis
    by (auto simp: cs fsUpdatePrimaryTable_append)
qed

lemma sync_main_table:
  assumes "\<not> rejects E (config_id config) SettingsGet" "\<not> rejects E (config_id config) QueryJob"
  shows "mainTables (snd (syncTrackerToMainTable E config w)) (datasetId config, tableId config) =
           run_query (sql E) (config_fields config)
             (trackerTables w (datasetId config, trackerTableId config))
             (fst (fst (window E config w))) (snd (fst (window E config w)))
             (mainTables w (datasetId config, tableId config))"
  using assms by (simp add: sync_eq window_snd Let_def)

lemma latest_created_attained:
  assumes "\<exists>c \<in> set tlog. documentId c = d \<and> changeType c = CREATED"
  shows "\<exists>c \<in> set tlog. documentId c = d \<and> changeType c = CREATED \<and>
           timestamp c = latest_created tlog d"
proof -
  let ?cs = "filter (\<lambda>r. documentId r = d \<and> changeType r = CREATED) tlog"
  from assms have ne: "?cs \<noteq> []"
    by (auto simp: filter_empty_conv)
  then have "Max (timestamp ` set ?cs) \<in> timestamp ` set ?cs"
    by (intro Max_in) (simp_all del: set_filter)
  then obtain c where c: "c \<in> set ?cs" and m: "timestamp c = Max (timestamp ` set ?cs)"
    by auto
  from c have "c \<in> set tlog" "documentId c = d" "changeType c = CREATED"
    by simp_all
  moreover from ne m have "timestamp c = latest_created tlog d"
    by (simp add: latest_created_def MAX_timestamp_def COALESCE_def del: set_filter)
  ultimately show ?thesis
    by blast
qed

text \<open>
  The entries the \<^verbatim>\<open>WHERE\<close> clause keeps for a document, in terms of the tracker
  table alone, and the documents that get a row in \<^verbatim>\<open>tmp\<close>.
\<close>

lemma latest_created_le_iff:
  "latest_created tlog d \<le> x \<longleftrightarrow>
     (\<forall>c \<in> set tlog. documentId c = d \<and> changeType c = CREATED \<longrightarrow> timestamp c \<le> x) \<and>
     ((\<exists>c \<in> set tlog. documentId c = d \<and> changeType c = CREATED) \<or> 0 \<le> x)"
proof (cases "\<exists>c \<in> set tlog. documentId c = d \<and> changeType c = CREATED")
  case True
  from latest_created_attained [OF True] obtain c where c: "c \<in> set tlog" "documentId c = d"
    "changeType c = CREATED" "timestamp c = latest_created tlog d"
    by blast
  show ?thesis
  proof
    assume le: "latest_created tlog d \<le> x"
    have "\<forall>c' \<in> set tlog. documentId c' = d \<and> changeType c' = CREATED \<longrightarrow> timestamp c' \<le> x"
    proof (intro ballI impI)
      fix c' assume "c' \<in> set tlog" "documentId c' = d \<and> changeType c' = CREATED"
      then have "timestamp c' \<le> latest_created tlog d"
        by (simp add: latest_created_ge)
      with le show "timestamp c' \<le> x" by simp
    qed
    with True show "(\<forall>c \<in> set tlog. documentId c = d \<and> changeType c = CREATED \<longrightarrow> timestamp c \<le> x) \<and>
     ((\<exists>c \<in> set tlog. documentId c = d \<and> changeType c = CREATED) \<or> 0 \<le> x)"
      by blast
  next
    assume "(\<forall>c \<in> set tlog. documentId c = d \<and> changeType c = CREATED \<longrightarrow> timestamp c \<le> x) \<and>
     ((\<exists>c \<in> set tlog. documentId c = d \<and> changeType c = CREATED) \<or> 0 \<le> x)"
    with c show "latest_created tlog d \<le> x"
      by auto
  qed
next
  case False
  then have "latest_created tlog d = 0"
    by (rule latest_created_epoch)
  with False show ?thesis
    by auto
qed

lemma group_rows_considered:
  "set (group_rows tlog s e d) =
     {n \<in> set tlog. documentId n = d \<and> s \<le> timestamp n \<and> timestamp n \<le> e \<and>
        (\<forall>c \<in> set tlog. documentId c = d \<and> changeType c = CREATED \<longrightarrow>
           timestamp c \<le> timestamp n) \<and>
        ((\<exists>c \<in> set tlog. documentId c = d \<and> changeType c = CREATED) \<or> 0 \<le> timestamp n)}"
  unfolding set_group_rows latest_created_le_iff by blast

lemma aggregated_iff:
  "(\<exists>t \<in> set (tmp_table B fs tlog s e). documentId t = d) \<longleftrightarrow> group_rows tlog s e d \<noteq> []"
proof -
  have "(\<exists>t \<in> set (tmp_table B fs tlog s e). documentId t = d) \<longleftrightarrow>
          d \<in> set (map documentId (tmp_table B fs tlog s e))"
    by auto
  also have "\<dots> \<longleftrightarrow> (\<exists>n \<in> set tlog. selected tlog s e n \<and> documentId n = d)"
    unfolding tmp_table_ids by auto
  also have "\<dots> \<longleftrightarrow> group_rows tlog s e d \<noteq> []"
    by (auto simp: group_rows_def filter_empty_conv)
  finally show ?thesis .
qed

lemma created_in_window_aggregated:
  assumes c: "c \<in> set tlog" "documentId c = d" "changeType c = CREATED" "s \<le> timestamp c"
    and last: "\<forall>c \<in> set tlog. documentId c = d \<and> changeType c = CREATED \<longrightarrow> timestamp c \<le> e"
  shows "group_rows tlog s e d \<noteq> []"
proof -
  from c have "\<exists>c \<in> set tlog. documentId c = d \<and> changeType c = CREATED"
    by blast
  from latest_created_attained [OF this] obtain c' where c': "c' \<in> set tlog" "documentId c' = d"
    "changeType c' = CREATED" "timestamp c' = latest_created tlog d"
    by blast
  from c have "timestamp c \<le> latest_created tlog d"
    by (simp add: latest_created_ge)
  with c(4) c'(4) have "s \<le> timestamp c'"
    by simp
  moreover from last c' have "timestamp c' \<le> e"
    by blast
  ultimately have "c' \<in> set (group_rows tlog s e d)"
    using c' unfolding set_group_rows by simp
  then show ?thesis
    by auto
qed

section \<open>The samples, evaluated\<close>

lemmas eval_defs = tmp_table_def selected_def latest_created_def MAX_timestamp_def COALESCE_def
  BETWEEN_def window_count_def COUNTIF_def group_rows_def aggregate_def ORDER_BY_timestamp_DESC_def
  OFFSET_0_def selection_def field_of_def plain_field_def entry_def schema_def cols_def
  has_row_def rows_of_def INSERT_rows_def INSERT_main_def DELETE_main_def UPDATE_main_def
  run_query_def inserted_row_def updated_row_def main_value_def scalar_sql_def


lemma merge_log_tmp:
  "map (\<lambda>t. (documentId t, createdCount t, deletedCount t, columns t ''a'', columns t ''b''))
     (tmp_table scalar_sql schema merge_log 0 10) = [(''x'', 2, 0, Some 1, Some 3)]"
  by (simp add: eval_defs merge_log_def)

lemma merge_log_run:
  "map (\<lambda>r. (documentId r, columns r ''a'', columns r ''b''))
     (run_query scalar_sql schema merge_log 0 10 []) = [(''x'', Some 1, Some 3)]"
  by (simp add: eval_defs merge_log_def)

lemma merge_log_considered:
  "{n \<in> set merge_log. documentId n = ''x'' \<and> 0 \<le> timestamp n \<and> timestamp n \<le> 10 \<and>
      (\<forall>c \<in> set merge_log. documentId c = ''x'' \<and> changeType c = CREATED \<longrightarrow>
         timestamp c \<le> timestamp n) \<and>
      ((\<exists>c \<in> set merge_log. documentId c = ''x'' \<and> changeType c = CREATED) \<or>
         0 \<le> timestamp n)} =
   {entry CREATED 1 ''x'' (cols (Some 1) (Some 2)), entry UPDATED 2 ''x'' (cols None (Some 3))}"
  by (auto simp: merge_log_def entry_def)

lemma merge_log_counts:
  "length (filter (\<lambda>n. documentId n = ''x'' \<and> changeType n = CREATED \<and>
                     0 \<le> timestamp n \<and> timestamp n \<le> 10) merge_log) = 2"
  "length (filter (\<lambda>n. documentId n = ''x'' \<and> changeType n = DELETED \<and>
                     0 \<le> timestamp n \<and> timestamp n \<le> 10) merge_log) = 0"
  "filter (\<lambda>n. documentId n = ''x'' \<and> changeType n = CREATED \<and> 10 < timestamp n) merge_log = []"
  by (simp_all add: merge_log_def entry_def)

lemma shadowed_log_tmp:
  "map (\<lambda>t. (documentId t, createdCount t, deletedCount t, columns t ''a'', columns t ''b''))
     (tmp_table scalar_sql schema shadowed_log 0 10) = [(''x'', 2, 0, None, Some 3)]"
  by (simp add: eval_defs shadowed_log_def)

lemma shadowed_log_run:
  "map (\<lambda>r. (documentId r, columns r ''a'', columns r ''b''))
     (run_query scalar_sql schema shadowed_log 0 10 []) = [(''x'', None, Some 3)]"
  by (simp add: eval_defs shadowed_log_def)

lemma tags_log_tmp:
  "map (\<lambda>t. (documentId t, createdCount t, deletedCount t, columns t ''tags''))
     (tmp_table blank_sql tag_schema tags_log 0 10) = [(''x'', 1, 0, Some 0)]"
  by (simp add: eval_defs tags_log_def tag_schema_def tag_cols_def blank_sql_def)

lemma tags_log_considered:
  "{n \<in> set tags_log. documentId n = ''x'' \<and> 0 \<le> timestamp n \<and> timestamp n \<le> 10 \<and>
      (\<forall>c \<in> set tags_log. documentId c = ''x'' \<and> changeType c = CREATED \<longrightarrow>
         timestamp c \<le> timestamp n) \<and>
      ((\<exists>c \<in> set tags_log. documentId c = ''x'' \<and> changeType c = CREATED) \<or>
         0 \<le> timestamp n)} =
   {entry CREATED 1 ''x'' (tag_cols (Some 5)), entry UPDATED 2 ''x'' (tag_cols None)}"
  by (auto simp: tags_log_def entry_def)

lemma tags_expression:
  "(\<lambda>n. ARRAY_TO_STRING blank_sql (columns n ''tags'')) `
     {entry CREATED 1 ''x'' (tag_cols (Some 5)), entry UPDATED 2 ''x'' (tag_cols None)} =
   {Some 5, Some 0}"
  "columns (entry UPDATED 2 ''x'' (tag_cols None)) ''tags'' = None"
  by (simp_all add: entry_def tag_cols_def blank_sql_def)

lemma delete_log_tmp:
  "map (\<lambda>t. (documentId t, createdCount t, deletedCount t, columns t ''a'', columns t ''b''))
     (tmp_table scalar_sql schema delete_log 0 10) = [(''x'', 0, 1, None, None)]"
  by (simp add: eval_defs delete_log_def)

lemma tie_log_tmp:
  "map (\<lambda>t. (documentId t, createdCount t, deletedCount t, columns t ''a'', columns t ''b''))
     (tmp_table scalar_sql schema tie_log 0 10) = [(''x'', 1, 1, None, Some 2)]"
  by (simp add: eval_defs tie_log_def)

lemma recreated_log_tmp:
  "map (\<lambda>t. (documentId t, createdCount t, deletedCount t, columns t ''a'', columns t ''b''))
     (tmp_table scalar_sql schema recreated_log 0 10) = [(''x'', 2, 1, None, Some 5)]"
  by (simp add: eval_defs recreated_log_def)

lemma recreated_log_latest: "latest_created recreated_log ''x'' = 3"
  by (simp add: eval_defs recreated_log_def)

lemma users_config_simps:
  "config_id users_config = ''users''" "datasetId users_config = ''firestore_sync''"
  "tableId users_config = ''users''" "trackerTableId users_config = ''users_tracker''"
  "config_fields users_config = schema"
  "settings_key sample_env users_config = ''bq-users''"
  by (simp_all add: users_config_def schema_def settings_key_def sample_env_def)

lemma sample_env_simps:
  "rejects sample_env c call = False" "sql sample_env = scalar_sql"
  "clock sample_env k = 100 + 100 * int k"
  by (simp_all add: sample_env_def)

lemma boundary_world_simps:
  "settings boundary_world ''bq-users'' = Some 0" "ticks boundary_world = 0"
  "trackerTables boundary_world (''firestore_sync'', ''users_tracker'') =
     [entry CREATED 100 ''x'' (cols (Some 1) (Some 2))]"
  "mainTables boundary_world (''firestore_sync'', ''users'') = []"
  by (simp_all add: boundary_world_def)

lemma boundary_window: "fst (window sample_env users_config boundary_world) = (0, 100)"
  by (simp add: window_fst users_config_simps sample_env_simps boundary_world_simps)

lemma boundary_tmp:
  "map (\<lambda>t. (documentId t, createdCount t, deletedCount t))
     (tmp_table scalar_sql schema [entry CREATED 100 ''x'' (cols (Some 1) (Some 2))] 0 100) =
     [(''x'', 1, 0)]"
  by (simp add: eval_defs)

lemma boundary_run:
  "has_row (run_query scalar_sql schema [entry CREATED 100 ''x'' (cols (Some 1) (Some 2))] 0 100 [])
     ''x''"
  by (simp add: eval_defs)

lemma boundary_main:
  "mainTables (snd (syncTrackerToMainTable sample_env users_config boundary_world))
     (''firestore_sync'', ''users'') =
   run_query scalar_sql schema [entry CREATED 100 ''x'' (cols (Some 1) (Some 2))] 0 100 []"
  using sync_main_table [of sample_env users_config boundary_world]
  by (simp add: users_config_simps sample_env_simps boundary_world_simps boundary_window)

lemma late_world_simps:
  "settings late_world ''bq-users'' = Some 50" "ticks late_world = 0"
  "trackerTables late_world (''firestore_sync'', ''users_tracker'') =
     [entry CREATED 150 ''x'' (cols (Some 1) (Some 2))]"
  "mainTables late_world (''firestore_sync'', ''users'') = []"
  by (simp_all add: late_world_def)

lemma late_window: "fst (window sample_env users_config late_world) = (50, 100)"
  by (simp add: window_fst users_config_simps sample_env_simps late_world_simps)

lemma late_run_empty:
  "run_query scalar_sql schema [entry CREATED 150 ''x'' (cols (Some 1) (Some 2))] 50 100 [] = []"
  "run_query scalar_sql schema [entry CREATED 150 ''x'' (cols (Some 1) (Some 2))] 200 300 [] = []"
  by (simp_all add: eval_defs)

lemma late_after_first:
  "syncTrackerToMainTable sample_env users_config late_world =
     (Inr (), late_world\<lparr>ticks := 2, settings := [''bq-users'' \<mapsto> 200],
        mainTables := (mainTables late_world)((''firestore_sync'', ''users'') := [])\<rparr>)"
  by (simp add: sync_eq window_snd window_fst Let_def users_config_simps sample_env_simps
      late_world_simps late_run_empty) (simp add: late_world_def)

lemma formatValue_NUMERIC:
  assumes "type f = ''NUMERIC'' \<or> type f = ''FLOAT64'' \<or> type f = ''INT64''"
  shows "formatValue P f v = format_NUMERIC f v"
  using assms by (auto simp: formatValue_def Let_def)

lemma formatValue_ARRAY:
  assumes "type f = ''ARRAY''"
  shows "formatValue P f v = Inr (format_ARRAY P f v)"
  using assms by (simp add: formatValue_def Let_def)

lemma parseFloat_pi: "parseFloat ''3.14159'' = Fin (314159 / 100000)"
  by (simp add: parseFloat_def is_space_def unsigned_literal_def is_digit_def digits_val_def
      digit_val_def exponent_part_def pow10_def)

lemma round_pi: "nat \<lfloor>\<bar>314159 / 100000 :: rat\<bar> * 100 + 1 / 2\<rfloor> = 314"
  by code_simp

lemma not_integer_pi: "\<not> isInteger (Num (Fin (314159 / 100000)))"
  by code_simp

lemma safeFloat_pi: "safeFloat (Num (Fin (314159 / 100000))) = Inr (Num (Fin (314 / 100)))"
proof -
  have "safeFloat (Num (Fin (314159 / 100000))) =
          Inr (Num (parseFloat (toFixed (Fin (314159 / 100000)) 2)))"
    using not_integer_pi by (simp add: safeFloat_def)
  also have "parseFloat (toFixed (Fin (314159 / 100000)) 2) = Fin (314 / 100)"
    unfolding parseFloat_toFixed round_pi by simp
  finally show ?thesis .
qed

lemma format_NUMERIC_pi:
  assumes "method_fn f = None"
  shows "format_NUMERIC f (Str ''3.14159'') = Inr (Num (Fin (314 / 100)))"
  using assms by (simp add: format_NUMERIC_def apply_method_def parseFloat_pi safeFloat_pi)

lemmas doc_defs = collection_row_def group_row_def with_parentId_def formatDocument_def
  webhook_config_def snapshot_def sample_platform_def spread_def get_prop_def formatValue_def
  apply_method_def

lemma rejected_rows:
  "isl (collection_row sample_platform webhook_config (snapshot ''a''))"
  "isl (collection_row sample_platform webhook_config (snapshot ''b''))"
  "isl (group_row sample_platform webhook_config (snapshot ''a''))"
  "isl (group_row sample_platform webhook_config (snapshot ''b''))"
  by (simp_all add: doc_defs)

lemma accepted_row:
  "collection_row sample_platform webhook_config (snapshot ''c'') =
     Inr [''documentId'' \<mapsto> Str ''c'', ''email'' \<mapsto> Str ''c@example.org'']"
  "group_row sample_platform webhook_config (snapshot ''c'') =
     Inr [''documentId'' \<mapsto> Str ''c'', ''email'' \<mapsto> Str ''c@example.org'']"
  by (simp_all add: doc_defs)


section \<open>Reconciliation\<close>



text \<open>
  Against claim C2 as stated: the document \<open>x\<close> has no row in the main table
  and has two \<^verbatim>\<open>CREATED\<close> entries and no \<^verbatim>\<open>DELETED\<close> entry in the window, the
  first with \<open>a = 1\<close> and the second, more recent, with \<open>a\<close> null.  One row is
  inserted and its \<open>a\<close> is null: the entry older than the latest \<^verbatim>\<open>CREATED\<close>
  entry is not considered, so the latest value of \<open>a\<close> in the window that is
  not null does not reach the row.
\<close>

theorem per_field_latest_non_null_counterexample:
  "map (\<lambda>n. (changeType n, timestamp n, documentId n, columns n ''a'', columns n ''b''))
     shadowed_log = [(CREATED, 1, ''x'', Some 1, Some 2), (CREATED, 2, ''x'', None, Some 3)]
   \<and> map (\<lambda>t. (documentId t, createdCount t, deletedCount t, columns t ''a'', columns t ''b''))
       (tmp_table scalar_sql schema shadowed_log 0 10) = [(''x'', 2, 0, None, Some 3)]
   \<and> map (\<lambda>r. (documentId r, columns r ''a'', columns r ''b''))
       (run_query scalar_sql schema shadowed_log 0 10 []) = [(''x'', None, Some 3)]"
proof -
  have "map (\<lambda>n. (changeType n, timestamp n, documentId n, columns n ''a'', columns n ''b''))
     shadowed_log = [(CREATED, 1, ''x'', Some 1, Some 2), (CREATED, 2, ''x'', None, Some 3)]"
    by (simp add: shadowed_log_def entry_def cols_def)
  with shadowed_log_tmp shadowed_log_run show ?thesis
    by simp
qed

text \<open>
  Claim C2, amended.  For every run, every document id \<open>d\<close> and every field of
  the schema, let \<open>G\<close> be the considered entries of \<open>d\<close>: its entries in the
  window that are not older than any \<^verbatim>\<open>CREATED\<close> entry of \<open>d\<close> in the whole
  tracker table (nor older than the epoch when it has none); and let \<open>x\<close> be
  the expression the query aggregates for the field: the column itself, or
  \<^verbatim>\<open>ARRAY_TO_STRING\<close> / \<^verbatim>\<open>TO_JSON_STRING\<close> of the column for an \<^verbatim>\<open>ARRAY\<close> /
  \<^verbatim>\<open>JSON\<close> field.  Then \<open>d\<close> is aggregated exactly when \<open>G\<close> is not empty.  The
  aggregate of the field is null exactly when \<open>x\<close> is null in all of \<open>G\<close>;
  otherwise it is the value of \<open>x\<close> in an entry of \<open>G\<close> such that no entry of
  \<open>G\<close> where \<open>x\<close> has a value is more recent.  Where \<open>x\<close> is null in no entry
  of \<open>G\<close> the most recent considered entry gives the value, whatever its
  column holds.  The field is resolved from its own column alone.  A document
  without a row that has two \<^verbatim>\<open>CREATED\<close> and no \<^verbatim>\<open>DELETED\<close> entry in the window, and
  no \<^verbatim>\<open>CREATED\<close> entry after it, has exactly one row in \<^verbatim>\<open>tmp\<close> and exactly one
  row in the main table after the transaction, which carries the aggregate of
  the field (through \<^verbatim>\<open>SPLIT\<close> / \<^verbatim>\<open>PARSE_JSON\<close> for an \<^verbatim>\<open>ARRAY\<close> / \<^verbatim>\<open>JSON\<close> field).
\<close>

theorem per_field_latest_non_null:
  assumes "field_of fs k = Some f"
    and "G = {n \<in> set tlog. documentId n = d \<and> s \<le> timestamp n \<and> timestamp n \<le> e \<and>
                (\<forall>c \<in> set tlog. documentId c = d \<and> changeType c = CREATED \<longrightarrow>
                   timestamp c \<le> timestamp n) \<and>
                ((\<exists>c \<in> set tlog. documentId c = d \<and> changeType c = CREATED) \<or>
                   0 \<le> timestamp n)}"
    and "x = (\<lambda>n. if type f = ''ARRAY'' then ARRAY_TO_STRING B (columns n k)
                    else if type f = ''JSON'' then TO_JSON_STRING B (columns n k)
                    else columns n k)"
  shows "((\<exists>t \<in> set (tmp_table B fs tlog s e). documentId t = d) \<longleftrightarrow> G \<noteq> {})
       \<and> (\<forall>t \<in> set (tmp_table B fs tlog s e). documentId t = d \<longrightarrow>
            (columns t k = None \<longleftrightarrow> (\<forall>n \<in> G. x n = None))
          \<and> (\<forall>v. columns t k = Some v \<longrightarrow>
               (\<exists>n \<in> G. x n = Some v \<and>
                  (\<forall>m \<in> G. x m \<noteq> None \<longrightarrow> timestamp m \<le> timestamp n)))
          \<and> ((\<forall>n \<in> G. x n \<noteq> None) \<longrightarrow>
               (\<exists>n \<in> G. columns t k = x n \<and> (\<forall>m \<in> G. timestamp m \<le> timestamp n))))
       \<and> (length (filter (\<lambda>n. documentId n = d \<and> changeType n = CREATED \<and>
                              s \<le> timestamp n \<and> timestamp n \<le> e) tlog) = 2
          \<and> length (filter (\<lambda>n. documentId n = d \<and> changeType n = DELETED \<and>
                              s \<le> timestamp n \<and> timestamp n \<le> e) tlog) = 0
          \<and> filter (\<lambda>n. documentId n = d \<and> changeType n = CREATED \<and> e < timestamp n) tlog = []
          \<and> filter (\<lambda>i. documentId i = d) table = []
          \<longrightarrow> (\<exists>t r. filter (\<lambda>t. documentId t = d) (tmp_table B fs tlog s e) = [t]
                 \<and> filter (\<lambda>r. documentId r = d) (run_query B fs tlog s e table) = [r]
                 \<and> columns r k = (if type f = ''ARRAY'' then SPLIT B (columns t k)
                                   else if type f = ''JSON'' then PARSE_JSON B (columns t k)
                                   else columns t k)))"
proof -
  let ?tmp = "tmp_table B fs tlog s e"
  from assms(1) have key: "key f = k"
    by (simp add: field_of_key)
  have G: "G = set (group_rows tlog s e d)"
    unfolding assms(2) group_rows_considered ..
  have x: "selection B f (columns n (key f)) = x n" for n
    by (simp add: assms(3) selection_def key)
  have who: "(\<exists>t \<in> set ?tmp. documentId t = d) \<longleftrightarrow> G \<noteq> {}"
    unfolding G aggregated_iff by simp
  have field: "(columns t k = None \<longleftrightarrow> (\<forall>n \<in> G. x n = None))
          \<and> (\<forall>v. columns t k = Some v \<longrightarrow>
               (\<exists>n \<in> G. x n = Some v \<and>
                  (\<forall>m \<in> G. x m \<noteq> None \<longrightarrow> timestamp m \<le> timestamp n)))
          \<and> ((\<forall>n \<in> G. x n \<noteq> None) \<longrightarrow>
               (\<exists>n \<in> G. columns t k = x n \<and> (\<forall>m \<in> G. timestamp m \<le> timestamp n)))"
    if t: "t \<in> set ?tmp" and d: "documentId t = d" for t
  proof -
    from tmp_table_row(3) [OF t, of k] assms(1) d
    have col: "columns t k = aggregate B f (group_rows tlog s e d)"
      by simp
    from tmp_table_row(4) [OF t] d have ne: "G \<noteq> {}"
      unfolding G by simp
    have none: "columns t k = None \<longleftrightarrow> (\<forall>n \<in> G. x n = None)"
      unfolding col G aggregate_None x ..
    have some: "\<exists>n \<in> G. x n = Some v \<and>
                  (\<forall>m \<in> G. x m \<noteq> None \<longrightarrow> timestamp m \<le> timestamp n)"
      if "columns t k = Some v" for v
      using aggregate_Some [of B f "group_rows tlog s e d" v] that
      unfolding col G x by simp
    have newest: "\<exists>n \<in> G. columns t k = x n \<and> (\<forall>m \<in> G. timestamp m \<le> timestamp n)"
      if all: "\<forall>n \<in> G. x n \<noteq> None"
    proof -
      from ne all none obtain v where v: "columns t k = Some v"
        by (cases "columns t k") auto
      from some [OF v] obtain n where "n \<in> G" "x n = Some v"
        "\<forall>m \<in> G. x m \<noteq> None \<longrightarrow> timestamp m \<le> timestamp n"
        by blast
      with all v show ?thesis
        by (intro bexI [of _ n]) simp_all
    qed
    from none some newest show ?thesis
      by blast
  qed
  have two: "\<exists>t r. filter (\<lambda>t. documentId t = d) ?tmp = [t]
                 \<and> filter (\<lambda>r. documentId r = d) (run_query B fs tlog s e table) = [r]
                 \<and> columns r k = (if type f = ''ARRAY'' then SPLIT B (columns t k)
                                   else if type f = ''JSON'' then PARSE_JSON B (columns t k)
                                   else columns t k)"
    if created: "length (filter (\<lambda>n. documentId n = d \<and> changeType n = CREATED \<and>
                              s \<le> timestamp n \<and> timestamp n \<le> e) tlog) = 2"
      and deleted: "length (filter (\<lambda>n. documentId n = d \<and> changeType n = DELETED \<and>
                              s \<le> timestamp n \<and> timestamp n \<le> e) tlog) = 0"
      and none_later: "filter (\<lambda>n. documentId n = d \<and> changeType n = CREATED \<and>
                                 e < timestamp n) tlog = []"
      and no_row_yet: "filter (\<lambda>i. documentId i = d) table = []"
  proof -
    from none_later
    have last: "\<forall>c \<in> set tlog. documentId c = d \<and> changeType c = CREATED \<longrightarrow> timestamp c \<le> e"
      by (auto simp: filter_empty_conv)
    from no_row_yet have absent: "\<forall>i \<in> set table. documentId i \<noteq> d"
      by (auto simp: filter_empty_conv)
    from created have "filter (\<lambda>n. documentId n = d \<and> changeType n = CREATED \<and>
                              s \<le> timestamp n \<and> timestamp n \<le> e) tlog \<noteq> []"
      by auto
    then obtain c where "c \<in> set tlog" "documentId c = d" "changeType c = CREATED"
      "s \<le> timestamp c"
      by (auto simp: filter_empty_conv)
    from created_in_window_aggregated [OF this last]
    obtain t where t: "t \<in> set ?tmp" and d: "documentId t = d"
      unfolding aggregated_iff [symmetric, of tlog s e d B fs] by blast
    from tmp_table_row(1,2) [OF t] created deleted d
    have counts: "createdCount t = 2" "deletedCount t = 0"
      by (simp_all add: window_count_eq)
    from absent have no_row: "\<not> has_row table (documentId t)"
      by (auto simp: has_row_def d)
    from rows_of_distinct [OF tmp_table_distinct t] d
    have one: "filter (\<lambda>t. documentId t = d) ?tmp = [t]"
      by (simp add: rows_of_def)
    from rows_of_run_query [OF t, of table] counts no_row d
    have row: "filter (\<lambda>r. documentId r = d) (run_query B fs tlog s e table) = [inserted_row B fs t]"
      by (simp add: rows_of_def has_row_rows_of)
    have "columns (inserted_row B fs t) k =
            (if type f = ''ARRAY'' then SPLIT B (columns t k)
             else if type f = ''JSON'' then PARSE_JSON B (columns t k)
             else columns t k)"
      using assms(1) by (simp add: inserted_row_def main_value_def)
    with one row show ?thesis
      by blast
  qed
  from who field two show ?thesis
    by blast
qed

text \<open>
  A \<^verbatim>\<open>CREATED\<close> entry at 0, a \<^verbatim>\<open>CREATED\<close> entry at 1 and an update at 2 that
  leaves \<open>a\<close> null: the entries at 1 and 2 are considered, \<open>a\<close> comes from the
  entry at 1 and \<open>b\<close>, which is null in neither, from the entry at 2; one
  row is inserted with both.  And an \<^verbatim>\<open>ARRAY\<close> column under a warehouse whose
  \<^verbatim>\<open>ARRAY_TO_STRING\<close> gives a value for every column: the update at 2, whose
  column is null, gives the aggregate.
\<close>

theorem per_field_latest_non_null_witness:
  "field_of schema ''a'' = Some (plain_field ''a'' ''INT64'')
   \<and> field_of schema ''b'' = Some (plain_field ''b'' ''INT64'')
   \<and> {n \<in> set merge_log. documentId n = ''x'' \<and> 0 \<le> timestamp n \<and> timestamp n \<le> 10 \<and>
        (\<forall>c \<in> set merge_log. documentId c = ''x'' \<and> changeType c = CREATED \<longrightarrow>
           timestamp c \<le> timestamp n) \<and>
        ((\<exists>c \<in> set merge_log. documentId c = ''x'' \<and> changeType c = CREATED) \<or>
           0 \<le> timestamp n)} =
       {entry CREATED 1 ''x'' (cols (Some 1) (Some 2)), entry UPDATED 2 ''x'' (cols None (Some 3))}
   \<and> None \<notin> (\<lambda>n. columns n ''b'') `
       {entry CREATED 1 ''x'' (cols (Some 1) (Some 2)), entry UPDATED 2 ''x'' (cols None (Some 3))}
   \<and> length (filter (\<lambda>n. documentId n = ''x'' \<and> changeType n = CREATED \<and>
                       0 \<le> timestamp n \<and> timestamp n \<le> 10) merge_log) = 2
   \<and> length (filter (\<lambda>n. documentId n = ''x'' \<and> changeType n = DELETED \<and>
                       0 \<le> timestamp n \<and> timestamp n \<le> 10) merge_log) = 0
   \<and> filter (\<lambda>n. documentId n = ''x'' \<and> changeType n = CREATED \<and> 10 < timestamp n) merge_log = []
   \<and> filter (\<lambda>i. documentId i = ''x'') ([] :: int row list) = []
   \<and> (\<exists>t r. filter (\<lambda>t. documentId t = ''x'') (tmp_table scalar_sql schema merge_log 0 10) = [t]
         \<and> filter (\<lambda>r. documentId r = ''x'') (run_query scalar_sql schema merge_log 0 10 []) = [r]
         \<and> columns t ''a'' = Some 1 \<and> columns t ''b'' = Some 3
         \<and> columns r ''a'' = Some 1 \<and> columns r ''b'' = Some 3)
   \<and> field_of tag_schema ''tags'' = Some (plain_field ''tags'' ''ARRAY'')
   \<and> (\<exists>t n. filter (\<lambda>t. documentId t = ''x'') (tmp_table blank_sql tag_schema tags_log 0 10) = [t]
         \<and> n = entry UPDATED 2 ''x'' (tag_cols None)
         \<and> columns n ''tags'' = None
         \<and> columns t ''tags'' = ARRAY_TO_STRING blank_sql (columns n ''tags'')
         \<and> columns t ''tags'' = Some 0)"
proof -
  let ?tmp = "tmp_table scalar_sql schema merge_log 0 10"
  let ?G = "{n \<in> set merge_log. documentId n = ''x'' \<and> 0 \<le> timestamp n \<and> timestamp n \<le> 10 \<and>
        (\<forall>c \<in> set merge_log. documentId c = ''x'' \<and> changeType c = CREATED \<longrightarrow>
           timestamp c \<le> timestamp n) \<and>
        ((\<exists>c \<in> set merge_log. documentId c = ''x'' \<and> changeType c = CREATED) \<or>
           0 \<le> timestamp n)}"
  have fa: "field_of schema ''a'' = Some (plain_field ''a'' ''INT64'')"
    and fb: "field_of schema ''b'' = Some (plain_field ''b'' ''INT64'')"
    by (simp_all add: field_of_def schema_def plain_field_def)
  have ty: "type (plain_field ''a'' ''INT64'') \<noteq> ''ARRAY''" "type (plain_field ''a'' ''INT64'') \<noteq> ''JSON''"
    "type (plain_field ''b'' ''INT64'') \<noteq> ''ARRAY''" "type (plain_field ''b'' ''INT64'') \<noteq> ''JSON''"
    by (simp_all add: plain_field_def)
  have b: "None \<notin> (\<lambda>n. columns n ''b'') `
       {entry CREATED 1 ''x'' (cols (Some 1) (Some 2)), entry UPDATED 2 ''x'' (cols None (Some 3))}"
    by (simp add: entry_def cols_def)
  have absent: "filter (\<lambda>i. documentId i = ''x'') ([] :: int row list) = []"
    by simp
  note inst_a = per_field_latest_non_null [where tlog = merge_log and d = "''x''" and s = 0
      and e = 10 and B = scalar_sql and table = "[] :: int row list", OF fa refl refl]
  note inst_b = per_field_latest_non_null [where tlog = merge_log and d = "''x''" and s = 0
      and e = 10 and B = scalar_sql and table = "[] :: int row list", OF fb refl refl]
  from inst_a merge_log_counts absent ty
  obtain t r where t: "filter (\<lambda>t. documentId t = ''x'') ?tmp = [t]"
    and r: "filter (\<lambda>r. documentId r = ''x'') (run_query scalar_sql schema merge_log 0 10 []) = [r]"
    and ra: "columns r ''a'' = columns t ''a''"
    by auto
  from inst_b merge_log_counts absent ty
  obtain t' r' where t': "filter (\<lambda>t. documentId t = ''x'') ?tmp = [t']"
    and r': "filter (\<lambda>r. documentId r = ''x'') (run_query scalar_sql schema merge_log 0 10 []) = [r']"
    and rb: "columns r' ''b'' = columns t' ''b''"
    by auto
  from t t' r r' have same: "t' = t" "r' = r"
    by simp_all
  from merge_log_tmp obtain t0 where tmp: "?tmp = [t0]"
    and vals: "documentId t0 = ''x''" "columns t0 ''a'' = Some 1" "columns t0 ''b'' = Some 3"
    by (cases ?tmp) auto
  from t have "t = t0"
    unfolding tmp by (simp add: vals)
  with vals have ta: "columns t ''a'' = Some 1" and tb: "columns t ''b'' = Some 3"
    by simp_all
  from ra rb same ta tb have "columns r ''a'' = Some 1" "columns r ''b'' = Some 3"
    by simp_all
  with t r ta tb have merged: "\<exists>t r. filter (\<lambda>t. documentId t = ''x'') ?tmp = [t]
         \<and> filter (\<lambda>r. documentId r = ''x'') (run_query scalar_sql schema merge_log 0 10 []) = [r]
         \<and> columns t ''a'' = Some 1 \<and> columns t ''b'' = Some 3
         \<and> columns r ''a'' = Some 1 \<and> columns r ''b'' = Some 3"
    by blast
  let ?tags_tmp = "tmp_table blank_sql tag_schema tags_log 0 10"
  let ?e1 = "entry CREATED 1 ''x'' (tag_cols (Some 5))"
  let ?e2 = "entry UPDATED 2 ''x'' (tag_cols None)"
  have ft: "field_of tag_schema ''tags'' = Some (plain_field ''tags'' ''ARRAY'')"
    by (simp add: field_of_def tag_schema_def plain_field_def)
  have ty_t: "type (plain_field ''tags'' ''ARRAY'') = ''ARRAY''"
    by (simp add: plain_field_def)
  from tags_log_tmp obtain u0 where tags_tmp: "?tags_tmp = [u0]"
    and uvals: "documentId u0 = ''x''" "columns u0 ''tags'' = Some 0"
    by (cases ?tags_tmp) auto
  then have u0: "u0 \<in> set ?tags_tmp"
    by simp
  have never: "\<forall>n \<in> {?e1, ?e2}. ARRAY_TO_STRING blank_sql (columns n ''tags'') \<noteq> None"
    using tags_expression(1) by (simp add: entry_def tag_cols_def blank_sql_def)
  note inst_t = per_field_latest_non_null [where tlog = tags_log and d = "''x''" and s = 0
      and e = 10 and B = blank_sql and table = "[] :: int row list", OF ft refl refl]
  have "\<forall>t \<in> set ?tags_tmp. documentId t = ''x'' \<longrightarrow>
          (\<forall>n \<in> {?e1, ?e2}. ARRAY_TO_STRING blank_sql (columns n ''tags'') \<noteq> None) \<longrightarrow>
          (\<exists>n \<in> {?e1, ?e2}.
             columns t ''tags'' = ARRAY_TO_STRING blank_sql (columns n ''tags'') \<and>
             (\<forall>m \<in> {?e1, ?e2}. timestamp m \<le> timestamp n))"
    using inst_t unfolding tags_log_considered by (simp add: ty_t)
  with u0 uvals(1) never
  obtain n where n: "n \<in> {?e1, ?e2}"
    and val: "columns u0 ''tags'' = ARRAY_TO_STRING blank_sql (columns n ''tags'')"
    and newest: "\<forall>m \<in> {?e1, ?e2}. timestamp m \<le> timestamp n"
    by blast
  from newest have "timestamp ?e2 \<le> timestamp n"
    by simp
  with n have n2: "n = ?e2"
    by (auto simp: entry_def)
  from tags_tmp uvals have one_t: "filter (\<lambda>t. documentId t = ''x'') ?tags_tmp = [u0]"
    by simp
  from one_t n2 val uvals tags_expression(2) ft
  have tagged: "field_of tag_schema ''tags'' = Some (plain_field ''tags'' ''ARRAY'')
   \<and> (\<exists>t n. filter (\<lambda>t. documentId t = ''x'') (tmp_table blank_sql tag_schema tags_log 0 10) = [t]
         \<and> n = entry UPDATED 2 ''x'' (tag_cols None)
         \<and> columns n ''tags'' = None
         \<and> columns t ''tags'' = ARRAY_TO_STRING blank_sql (columns n ''tags'')
         \<and> columns t ''tags'' = Some 0)"
    by simp
  from fa fb merge_log_considered b merge_log_counts absent merged tagged show ?thesis
    by simp
qed

text \<open>
  Against claim C3 as stated: the document \<open>x\<close> has a row and one \<^verbatim>\<open>DELETED\<close>
  entry in the window.  It is aggregated, with counts 0 and 1, and after the
  transaction the table is empty: the row was deleted, not updated.
\<close>

theorem update_existing_row_counterexample:
  "has_row [existing_row] ''x''
   \<and> map (\<lambda>t. (documentId t, createdCount t, deletedCount t))
       (tmp_table scalar_sql schema delete_log 0 10) = [(''x'', 0, 1)]
   \<and> run_query scalar_sql schema delete_log 0 10 [existing_row] = []"
  by (simp add: eval_defs delete_log_def existing_row_def)

text \<open>
  Claim C3, amended.  For every run and every aggregated document id that has
  a row in the main table: when \<^verbatim>\<open>deletedCount > createdCount\<close> the row is
  deleted; otherwise (equal counts included) its rows after the transaction
  are its rows before, each updated column by column: a column of the schema
  takes the aggregate's value where the aggregate is not null and keeps its
  own value where it is null, and the document id and every other column are
  unchanged.
\<close>

theorem update_existing_row:
  assumes "t \<in> set (tmp_table B fs tlog s e)" and "has_row table (documentId t)"
  shows "(createdCount t < deletedCount t \<longrightarrow>
            rows_of (run_query B fs tlog s e table) (documentId t) = [])
       \<and> (\<not> createdCount t < deletedCount t \<longrightarrow>
            rows_of (run_query B fs tlog s e table) (documentId t) =
              map (updated_row B fs t) (rows_of table (documentId t)))
       \<and> (\<forall>i k. documentId (updated_row B fs t i) = documentId i \<and>
            columns (updated_row B fs t i) k =
              (case field_of fs k of
                 None \<Rightarrow> columns i k
               | Some f \<Rightarrow>
                   (case columns t k of
                      None \<Rightarrow> columns i k
                    | Some v \<Rightarrow> main_value B f (Some v))))"
proof -
  from rows_of_run_query [OF assms(1), of table] assms(2)
  have "createdCount t < deletedCount t \<longrightarrow>
          rows_of (run_query B fs tlog s e table) (documentId t) = []"
    and "\<not> createdCount t < deletedCount t \<longrightarrow>
          rows_of (run_query B fs tlog s e table) (documentId t) =
            map (updated_row B fs t) (rows_of table (documentId t))"
    by simp_all
  moreover have "\<forall>i k. documentId (updated_row B fs t i) = documentId i \<and>
            columns (updated_row B fs t i) k =
              (case field_of fs k of
                 None \<Rightarrow> columns i k
               | Some f \<Rightarrow>
                   (case columns t k of
                      None \<Rightarrow> columns i k
                    | Some v \<Rightarrow> main_value B f (Some v)))"
    by (simp add: updated_row_def)
  ultimately show ?thesis
    by blast
qed

text \<open>
  A tie: \<open>x\<close> has the row \<open>(7, 7)\<close>, is created at 1 with \<open>b = 2\<close> and no
  \<open>a\<close>, and deleted at 3.  The row stays, \<open>a\<close> keeps 7 and \<open>b\<close> becomes 2.
\<close>

theorem update_existing_row_witness:
  "hd (tmp_table scalar_sql schema tie_log 0 10) \<in> set (tmp_table scalar_sql schema tie_log 0 10)
   \<and> documentId (hd (tmp_table scalar_sql schema tie_log 0 10)) = ''x''
   \<and> has_row [existing_row] ''x''
   \<and> createdCount (hd (tmp_table scalar_sql schema tie_log 0 10)) = 1
   \<and> deletedCount (hd (tmp_table scalar_sql schema tie_log 0 10)) = 1
   \<and> columns (hd (tmp_table scalar_sql schema tie_log 0 10)) ''a'' = None
   \<and> columns (hd (tmp_table scalar_sql schema tie_log 0 10)) ''b'' = Some 2
   \<and> rows_of (run_query scalar_sql schema tie_log 0 10 [existing_row]) ''x'' =
       [updated_row scalar_sql schema (hd (tmp_table scalar_sql schema tie_log 0 10)) existing_row]
   \<and> columns (updated_row scalar_sql schema (hd (tmp_table scalar_sql schema tie_log 0 10)) existing_row) ''a'' = Some 7
   \<and> columns (updated_row scalar_sql schema (hd (tmp_table scalar_sql schema tie_log 0 10)) existing_row) ''b'' = Some 2"
proof -
  let ?tmp = "tmp_table scalar_sql schema tie_log 0 10"
  have ne: "?tmp \<noteq> []"
    using tie_log_tmp by auto
  then have mem: "hd ?tmp \<in> set ?tmp"
    by simp
  from tie_log_tmp ne have facts: "documentId (hd ?tmp) = ''x''" "createdCount (hd ?tmp) = 1"
    "deletedCount (hd ?tmp) = 1" "columns (hd ?tmp) ''a'' = None" "columns (hd ?tmp) ''b'' = Some 2"
    by (cases ?tmp; simp)+
  have row: "has_row [existing_row] ''x''" "rows_of [existing_row] ''x'' = [existing_row]"
    by (simp_all add: has_row_def rows_of_def existing_row_def)
  have old: "columns existing_row ''a'' = Some 7"
    by (simp add: existing_row_def cols_def)
  have fs: "field_of schema ''a'' = Some (plain_field ''a'' ''INT64'')"
    "field_of schema ''b'' = Some (plain_field ''b'' ''INT64'')"
    by (simp_all add: field_of_def schema_def plain_field_def)
  have mv: "main_value scalar_sql (plain_field ''b'' ''INT64'') (Some 2) = Some 2"
    by (simp add: main_value_def plain_field_def)
  from row(1) facts(1) have hr: "has_row [existing_row] (documentId (hd ?tmp))"
    by simp
  from update_existing_row [OF mem hr] facts row old fs mv mem
  show ?thesis
    by simp
qed

section \<open>The window and the checkpoint\<close>

text \<open>
  Against claim C4 as stated: the checkpoint is 0, the run starts at 100, and
  the tracker table holds one \<^verbatim>\<open>CREATED\<close> entry stamped 100.  The window is
  \<open>(0, 100)\<close>, the entry is counted, and the run inserts its row: an entry
  stamped \<^verbatim>\<open>endTime\<close> is inside the window.
\<close>

theorem window_is_half_open_counterexample:
  "fst (window sample_env users_config boundary_world) = (0, 100)
   \<and> map (\<lambda>n. (changeType n, timestamp n, documentId n))
       (trackerTables boundary_world (''firestore_sync'', ''users_tracker'')) = [(CREATED, 100, ''x'')]
   \<and> map (\<lambda>t. (documentId t, createdCount t, deletedCount t))
       (tmp_table scalar_sql schema
          (trackerTables boundary_world (''firestore_sync'', ''users_tracker'')) 0 100) = [(''x'', 1, 0)]
   \<and> has_row (mainTables (snd (syncTrackerToMainTable sample_env users_config boundary_world))
        (''firestore_sync'', ''users'')) ''x''"
  using boundary_window boundary_tmp boundary_run
  by (simp add: boundary_main boundary_world_simps entry_def)

text \<open>
  Claim C4, amended.  A run aggregates over the closed interval from
  \<^verbatim>\<open>startTime\<close> to \<^verbatim>\<open>endTime\<close>, where \<^verbatim>\<open>endTime\<close> is the clock when the run starts
  and \<^verbatim>\<open>startTime\<close> the stored checkpoint, or a hundred years before the clock
  on the first run: the transaction is the query over that window; the
  aggregated ids are those of the entries in the interval that are not older
  than their document's latest \<^verbatim>\<open>CREATED\<close> entry; the two counts of an id count
  exactly its \<^verbatim>\<open>CREATED\<close> and \<^verbatim>\<open>DELETED\<close> entries in the interval, both ends
  included; and the column aggregates are taken over exactly its entries in
  the interval that are not older than its latest \<^verbatim>\<open>CREATED\<close> entry.
\<close>

theorem window_is_closed:
  assumes "fst (window E config w) = (startTime, endTime)"
    and "tlog = trackerTables w (datasetId config, trackerTableId config)"
  shows "endTime = clock E (ticks w)
       \<and> startTime = (case settings w (settings_key E config) of
                        Some lastRunDate \<Rightarrow> lastRunDate
                      | None \<Rightarrow> minus_100_years E (clock E (ticks w + 1)))
       \<and> (\<not> rejects E (config_id config) SettingsGet \<and> \<not> rejects E (config_id config) QueryJob \<longrightarrow>
            mainTables (snd (syncTrackerToMainTable E config w)) (datasetId config, tableId config) =
              run_query (sql E) (config_fields config) tlog startTime endTime
                (mainTables w (datasetId config, tableId config)))
       \<and> set (map documentId (tmp_table (sql E) (config_fields config) tlog startTime endTime)) =
            documentId ` {n \<in> set tlog. startTime \<le> timestamp n \<and> timestamp n \<le> endTime \<and>
                            latest_created tlog (documentId n) \<le> timestamp n}
       \<and> (\<forall>t \<in> set (tmp_table (sql E) (config_fields config) tlog startTime endTime).
            createdCount t =
              length (filter (\<lambda>n. documentId n = documentId t \<and> changeType n = CREATED \<and>
                                 startTime \<le> timestamp n \<and> timestamp n \<le> endTime) tlog) \<and>
            deletedCount t =
              length (filter (\<lambda>n. documentId n = documentId t \<and> changeType n = DELETED \<and>
                                 startTime \<le> timestamp n \<and> timestamp n \<le> endTime) tlog) \<and>
            (\<forall>k f. field_of (config_fields config) k = Some f \<longrightarrow>
               columns t k = aggregate (sql E) f (group_rows tlog startTime endTime (documentId t))) \<and>
            set (group_rows tlog startTime endTime (documentId t)) =
              {n \<in> set tlog. documentId n = documentId t \<and>
                 startTime \<le> timestamp n \<and> timestamp n \<le> endTime \<and>
                 latest_created tlog (documentId t) \<le> timestamp n})"
proof -
  from assms(1) have e: "endTime = clock E (ticks w)"
    and s: "startTime = (case settings w (settings_key E config) of
                        Some lastRunDate \<Rightarrow> lastRunDate
                      | None \<Rightarrow> minus_100_years E (clock E (ticks w + 1)))"
    by (auto simp: window_fst split: option.splits)
  have run: "\<not> rejects E (config_id config) SettingsGet \<and> \<not> rejects E (config_id config) QueryJob \<longrightarrow>
            mainTables (snd (syncTrackerToMainTable E config w)) (datasetId config, tableId config) =
              run_query (sql E) (config_fields config) tlog startTime endTime
                (mainTables w (datasetId config, tableId config))"
    using assms sync_main_table [of E config w] by simp
  have ids: "set (map documentId (tmp_table (sql E) (config_fields config) tlog startTime endTime)) =
            documentId ` {n \<in> set tlog. startTime \<le> timestamp n \<and> timestamp n \<le> endTime \<and>
                            latest_created tlog (documentId n) \<le> timestamp n}"
    unfolding tmp_table_ids by (auto simp: selected_def BETWEEN_def)
  have rows: "\<forall>t \<in> set (tmp_table (sql E) (config_fields config) tlog startTime endTime).
            createdCount t =
              length (filter (\<lambda>n. documentId n = documentId t \<and> changeType n = CREATED \<and>
                                 startTime \<le> timestamp n \<and> timestamp n \<le> endTime) tlog) \<and>
            deletedCount t =
              length (filter (\<lambda>n. documentId n = documentId t \<and> changeType n = DELETED \<and>
                                 startTime \<le> timestamp n \<and> timestamp n \<le> endTime) tlog) \<and>
            (\<forall>k f. field_of (config_fields config) k = Some f \<longrightarrow>
               columns t k = aggregate (sql E) f (group_rows tlog startTime endTime (documentId t))) \<and>
            set (group_rows tlog startTime endTime (documentId t)) =
              {n \<in> set tlog. documentId n = documentId t \<and>
                 startTime \<le> timestamp n \<and> timestamp n \<le> endTime \<and>
                 latest_created tlog (documentId t) \<le> timestamp n}"
  proof
    fix t
    assume t: "t \<in> set (tmp_table (sql E) (config_fields config) tlog startTime endTime)"
    show "createdCount t =
              length (filter (\<lambda>n. documentId n = documentId t \<and> changeType n = CREATED \<and>
                                 startTime \<le> timestamp n \<and> timestamp n \<le> endTime) tlog) \<and>
            deletedCount t =
              length (filter (\<lambda>n. documentId n = documentId t \<and> changeType n = DELETED \<and>
                                 startTime \<le> timestamp n \<and> timestamp n \<le> endTime) tlog) \<and>
            (\<forall>k f. field_of (config_fields config) k = Some f \<longrightarrow>
               columns t k = aggregate (sql E) f (group_rows tlog startTime endTime (documentId t))) \<and>
            set (group_rows tlog startTime endTime (documentId t)) =
              {n \<in> set tlog. documentId n = documentId t \<and>
                 startTime \<le> timestamp n \<and> timestamp n \<le> endTime \<and>
                 latest_created tlog (documentId t) \<le> timestamp n}"
      using tmp_table_row [OF t]
      by (simp add: window_count_eq set_group_rows)
  qed
  from e s run ids rows show ?thesis
    by blast
qed

text \<open>
  The same run: the window is \<open>(0, 100)\<close>, read from the checkpoint and the
  clock; the main table after the run is the query over it; and the entry
  stamped 100 is the one counted.
\<close>

theorem window_is_closed_witness:
  "fst (window sample_env users_config boundary_world) = (0, 100)
   \<and> clock sample_env (ticks boundary_world) = 100
   \<and> settings boundary_world (settings_key sample_env users_config) = Some 0
   \<and> mainTables (snd (syncTrackerToMainTable sample_env users_config boundary_world))
        (''firestore_sync'', ''users'') =
       run_query scalar_sql schema [entry CREATED 100 ''x'' (cols (Some 1) (Some 2))] 0 100 []
   \<and> hd (tmp_table scalar_sql schema [entry CREATED 100 ''x'' (cols (Some 1) (Some 2))] 0 100)
        \<in> set (tmp_table scalar_sql schema [entry CREATED 100 ''x'' (cols (Some 1) (Some 2))] 0 100)
   \<and> createdCount (hd (tmp_table scalar_sql schema [entry CREATED 100 ''x'' (cols (Some 1) (Some 2))] 0 100)) = 1
   \<and> length (filter (\<lambda>n. documentId n = ''x'' \<and> changeType n = CREATED \<and>
                        0 \<le> timestamp n \<and> timestamp n \<le> 100)
        [entry CREATED 100 ''x'' (cols (Some 1) (Some 2))]) = 1"
proof -
  let ?tlog = "[entry CREATED 100 ''x'' (cols (Some 1) (Some 2))]"
  let ?tmp = "tmp_table scalar_sql schema ?tlog 0 100"
  have tl: "?tlog = trackerTables boundary_world (datasetId users_config, trackerTableId users_config)"
    by (simp add: users_config_simps boundary_world_simps)
  have ne: "?tmp \<noteq> []"
    using boundary_tmp by auto
  then have mem: "hd ?tmp \<in> set ?tmp"
    by simp
  from boundary_tmp ne have facts: "documentId (hd ?tmp) = ''x''" "createdCount (hd ?tmp) = 1"
    by (cases ?tmp; simp)+
  have len: "length (filter (\<lambda>n. documentId n = ''x'' \<and> changeType n = CREATED \<and>
                        0 \<le> timestamp n \<and> timestamp n \<le> 100) ?tlog) = 1"
    by (simp add: entry_def)
  from window_is_closed [OF boundary_window tl]
  have "clock sample_env (ticks boundary_world) = 100"
    and "settings boundary_world (settings_key sample_env users_config) = Some 0"
    by (simp_all add: users_config_simps boundary_world_simps sample_env_simps)
  with boundary_window boundary_main mem facts len show ?thesis
    by simp
qed

text \<open>
  Claim C5 (the checkpoint after a successful run is the end of the window
  that run aggregated) fails on this run.  The checkpoint is 50 and the clock
  reads 100 when the run starts and 200 when it stores the checkpoint: the
  window is \<open>(50, 100)\<close>, the run succeeds, and the stored checkpoint is 200.
  The next window is \<open>(200, 300)\<close>, so the entry stamped 150 lies in no window:
  after two scheduled ticks the main table is still empty.
\<close>

theorem checkpoint_is_window_end_failing_input:
  "fst (window sample_env users_config late_world) = (50, 100)
   \<and> fst (syncTrackerToMainTable sample_env users_config late_world) = Inr ()
   \<and> settings (snd (syncTrackerToMainTable sample_env users_config late_world)) ''bq-users'' = Some 200
   \<and> fst (window sample_env users_config
        (snd (syncTrackerToMainTable sample_env users_config late_world))) = (200, 300)
   \<and> map (\<lambda>n. (changeType n, timestamp n, documentId n))
        (trackerTables late_world (''firestore_sync'', ''users_tracker'')) = [(CREATED, 150, ''x'')]
   \<and> mainTables (fsUpdatePrimaryTable sample_env [users_config]
        (fsUpdatePrimaryTable sample_env [users_config] late_world))
        (''firestore_sync'', ''users'') = []"
proof -
  let ?w1 = "snd (syncTrackerToMainTable sample_env users_config late_world)"
  have w1: "?w1 = late_world\<lparr>ticks := 2, settings := [''bq-users'' \<mapsto> 200],
        mainTables := (mainTables late_world)((''firestore_sync'', ''users'') := [])\<rparr>"
    by (simp add: late_after_first)
  have ok: "fst (syncTrackerToMainTable sample_env users_config late_world) = Inr ()"
    by (simp add: late_after_first)
  have s1: "settings ?w1 ''bq-users'' = Some 200"
    by (simp add: w1)
  have win2: "fst (window sample_env users_config ?w1) = (200, 300)"
    by (simp add: window_fst users_config_simps sample_env_simps w1)
  have "mainTables (snd (syncTrackerToMainTable sample_env users_config ?w1))
          (''firestore_sync'', ''users'') =
        run_query scalar_sql schema [entry CREATED 150 ''x'' (cols (Some 1) (Some 2))] 200 300 []"
    using sync_main_table [of sample_env users_config ?w1]
    by (simp add: users_config_simps sample_env_simps win2) (simp add: w1 late_world_simps)
  then have m2: "mainTables (fsUpdatePrimaryTable sample_env [users_config]
        (fsUpdatePrimaryTable sample_env [users_config] late_world))
        (''firestore_sync'', ''users'') = []"
    by (simp add: late_run_empty)
  have lg: "map (\<lambda>n. (changeType n, timestamp n, documentId n))
        (trackerTables late_world (''firestore_sync'', ''users_tracker'')) = [(CREATED, 150, ''x'')]"
    by (simp add: late_world_simps entry_def)
  from late_window ok s1 win2 lg m2 show ?thesis
    by simp
qed


section \<open>Coerced values\<close>

text \<open>
  Against claim C6 as stated: the string \<^verbatim>\<open>"Infinity"\<close> in a \<^verbatim>\<open>NUMERIC\<close> field is
  parsed to infinity, which is truthy, a number and not an integer, is printed
  as \<^verbatim>\<open>"Infinity"\<close> and parsed again: the output is infinity, neither null nor
  a finite number.
\<close>

theorem numeric_output_counterexample:
  "formatValue sample_platform (plain_field ''price'' ''NUMERIC'') (Str ''Infinity'') =
     Inr (Num PosInf)"
  by (simp add: formatValue_def plain_field_def format_NUMERIC_def apply_method_def
      parseFloat_Infinity safeFloat_def toFixed_def)

text \<open>
  Claim C6, amended.  For every \<^verbatim>\<open>NUMERIC\<close>, \<^verbatim>\<open>FLOAT64\<close> or \<^verbatim>\<open>INT64\<close> field and every
  input value, the coercion returns, and its output is null, plus or minus
  infinity, or a finite number with at most two fraction digits (an integer
  among them); without a transform the string \<^verbatim>\<open>"3.14159"\<close> gives 3.14.
\<close>

theorem numeric_output:
  assumes "type f = ''NUMERIC'' \<or> type f = ''FLOAT64'' \<or> type f = ''INT64''"
  shows "(\<exists>out. formatValue P f v = Inr out \<and>
            (out = Null \<or> out = Num PosInf \<or> out = Num NegInf \<or>
             (\<exists>q. out = Num (Fin q) \<and> two_decimals q)))
       \<and> (method_fn f = None \<longrightarrow>
            formatValue P f (Str ''3.14159'') = Inr (Num (Fin (314 / 100))))"
  using assms format_NUMERIC_output [of f v] format_NUMERIC_pi [of f]
  by (simp add: formatValue_NUMERIC)

theorem numeric_output_witness:
  "type (plain_field ''price'' ''NUMERIC'') = ''NUMERIC''
   \<and> method_fn (plain_field ''price'' ''NUMERIC'') = None
   \<and> formatValue sample_platform (plain_field ''price'' ''NUMERIC'') (Str ''3.14159'') =
       Inr (Num (Fin (314 / 100)))
   \<and> two_decimals (314 / 100)"
proof -
  have ty: "type (plain_field ''price'' ''NUMERIC'') = ''NUMERIC''"
    and m: "method_fn (plain_field ''price'' ''NUMERIC'') = None"
    by (simp_all add: plain_field_def)
  have "two_decimals (314 / 100)"
    unfolding two_decimals_iff by (rule exI [of _ 314]) simp
  with numeric_output [of "plain_field ''price'' ''NUMERIC''" sample_platform "Str ''3.14159''"] ty m
  show ?thesis
    by simp
qed

text \<open>
  Against claim C7 as stated: an \<^verbatim>\<open>ARRAY\<close> field whose value is the array of
  \<^verbatim>\<open>[0]\<close> and \<^verbatim>\<open>[["a"]]\<close>.  Both entries are arrays, hence truthy, and pass the
  filter; flattening them one level leaves the falsy \<open>0\<close> and the array
  \<^verbatim>\<open>["a"]\<close> in the output.
\<close>

theorem array_output_counterexample:
  "formatValue sample_platform (plain_field ''tags'' ''ARRAY'')
     (Arr [Arr [Num (Fin 0)], Arr [Arr [Str ''a'']]]) =
     Inr (Arr [Num (Fin 0), Arr [Str ''a'']])
   \<and> \<not> truthy (Num (Fin 0)) \<and> isArray (Arr [Str ''a''])"
  by (simp add: formatValue_def plain_field_def format_ARRAY_def array_entries_def
      normalize_array_def apply_method_def)

text \<open>
  Claim C7, amended.  For every \<^verbatim>\<open>ARRAY\<close> field and every input value the output
  is an array: the entries of the normalized array (formatted and
  transformed), the falsy ones removed and the rest then flattened one level.
  So an element of the output is a truthy entry that is not an array, or an
  element of an entry that is an array; no element is falsy or an array
  provided the elements of the array entries are themselves truthy and not
  arrays.
\<close>

theorem array_output:
  assumes "type f = ''ARRAY''"
  shows "formatValue P f v = Inr (Arr (flat (filter truthy (array_entries P f v))))
       \<and> (\<forall>x \<in> set (flat (filter truthy (array_entries P f v))).
            (x \<in> set (array_entries P f v) \<and> truthy x \<and> \<not> isArray x) \<or>
            (\<exists>zs. Arr zs \<in> set (array_entries P f v) \<and> x \<in> set zs))
       \<and> ((\<forall>zs. Arr zs \<in> set (array_entries P f v) \<longrightarrow> (\<forall>z \<in> set zs. truthy z \<and> \<not> isArray z)) \<longrightarrow>
            (\<forall>x \<in> set (flat (filter truthy (array_entries P f v))). truthy x \<and> \<not> isArray x))"
proof -
  let ?ys = "array_entries P f v"
  have out: "formatValue P f v = Inr (Arr (flat (filter truthy ?ys)))"
    using assms by (simp add: formatValue_ARRAY format_ARRAY_def)
  have mem: "\<forall>x \<in> set (flat (filter truthy ?ys)).
            (x \<in> set ?ys \<and> truthy x \<and> \<not> isArray x) \<or> (\<exists>zs. Arr zs \<in> set ?ys \<and> x \<in> set zs)"
    by (auto simp: set_flat)
  then have "(\<forall>zs. Arr zs \<in> set ?ys \<longrightarrow> (\<forall>z \<in> set zs. truthy z \<and> \<not> isArray z)) \<longrightarrow>
            (\<forall>x \<in> set (flat (filter truthy ?ys)). truthy x \<and> \<not> isArray x)"
    by blast
  with out mem show ?thesis
    by blast
qed

text \<open>
  An array with a null, an empty string and one nested array of strings
  comes out flat and without the falsy entries; the bare string \<^verbatim>\<open>"tag1"\<close>
  comes out as the array that holds it.
\<close>

theorem array_output_witness:
  "type (plain_field ''tags'' ''ARRAY'') = ''ARRAY''
   \<and> array_entries sample_platform (plain_field ''tags'' ''ARRAY'')
       (Arr [Str ''a'', Null, Arr [Str ''b'', Str ''c''], Str []]) =
       [Str ''a'', Null, Arr [Str ''b'', Str ''c''], Str []]
   \<and> formatValue sample_platform (plain_field ''tags'' ''ARRAY'')
       (Arr [Str ''a'', Null, Arr [Str ''b'', Str ''c''], Str []]) =
       Inr (Arr [Str ''a'', Str ''b'', Str ''c''])
   \<and> formatValue sample_platform (plain_field ''tags'' ''ARRAY'') (Str ''tag1'') =
       Inr (Arr [Str ''tag1''])"
proof -
  have ty: "type (plain_field ''tags'' ''ARRAY'') = ''ARRAY''"
    by (simp add: plain_field_def)
  have e1: "array_entries sample_platform (plain_field ''tags'' ''ARRAY'')
              (Arr [Str ''a'', Null, Arr [Str ''b'', Str ''c''], Str []]) =
            [Str ''a'', Null, Arr [Str ''b'', Str ''c''], Str []]"
    and e2: "array_entries sample_platform (plain_field ''tags'' ''ARRAY'') (Str ''tag1'') =
            [Str ''tag1'']"
    by (simp_all add: array_entries_def normalize_array_def plain_field_def apply_method_def)
  from array_output [OF ty, of sample_platform "Arr [Str ''a'', Null, Arr [Str ''b'', Str ''c''], Str []]",
      THEN conjunct1]
    array_output [OF ty, of sample_platform "Str ''tag1''", THEN conjunct1] ty e1 e2
  show ?thesis
    by simp
qed

text \<open>
  Claim C8 (a \<^verbatim>\<open>JSON\<close> field without a transform emits composite values) fails
  on every input.  The value is serialized, the result is a string (or
  \<^verbatim>\<open>undefined\<close>), and the check that follows turns every string into null: a
  \<^verbatim>\<open>JSON\<close> field without a transform emits null for every value that
  \<^verbatim>\<open>JSON.stringify\<close> serializes, an object such as \<^verbatim>\<open>{"a": 1}\<close> included, and
  \<^verbatim>\<open>undefined\<close> for the others.
\<close>

theorem json_without_transform_is_never_emitted:
  "formatValue P \<lparr>key = k, type = ''JSON'', formater = fm, accessor = acc, method_fn = None\<rparr> v =
     Inr (case JSON_stringify P v of None \<Rightarrow> Undefined | Some s \<Rightarrow> Null)"
  by (simp add: formatValue_def format_JSON_def is_primitive_def split: option.splits)

section \<open>Values of an earlier incarnation\<close>

text \<open>
  Claim C9.  The column aggregates of a document consider only entries at or
  after its latest \<^verbatim>\<open>CREATED\<close> entry over the whole tracker table (the maximum of
  the \<^verbatim>\<open>CREATED\<close> timestamps, the epoch when there is none): whatever the columns
  of the older entries hold, the temporary table and the main table after the
  transaction are the same, and an aggregate that is not null is the value of
  an entry of the document at or after that timestamp.
\<close>

theorem values_before_latest_created_ignored:
  "tmp_table B fs (map (overwrite_stale tlog g) tlog) s e = tmp_table B fs tlog s e
   \<and> run_query B fs (map (overwrite_stale tlog g) tlog) s e table = run_query B fs tlog s e table
   \<and> (\<forall>n \<in> set (group_rows tlog s e d). latest_created tlog d \<le> timestamp n)
   \<and> (\<forall>c \<in> set tlog. documentId c = d \<and> changeType c = CREATED \<longrightarrow>
         timestamp c \<le> latest_created tlog d)
   \<and> ((\<exists>c \<in> set tlog. documentId c = d \<and> changeType c = CREATED) \<longrightarrow>
         (\<exists>c \<in> set tlog. documentId c = d \<and> changeType c = CREATED \<and>
            timestamp c = latest_created tlog d))
   \<and> (\<not> (\<exists>c \<in> set tlog. documentId c = d \<and> changeType c = CREATED) \<longrightarrow>
         latest_created tlog d = 0)
   \<and> (\<forall>t \<in> set (tmp_table B fs tlog s e). \<forall>k f v.
         field_of fs k = Some f \<and> columns t k = Some v \<longrightarrow>
         (\<exists>n \<in> set tlog. documentId n = documentId t \<and>
            latest_created tlog (documentId t) \<le> timestamp n \<and>
            selection B f (columns n k) = Some v))"
proof -
  have tmp: "tmp_table B fs (map (overwrite_stale tlog g) tlog) s e = tmp_table B fs tlog s e"
    by (rule tmp_table_overwrite)
  then have run: "run_query B fs (map (overwrite_stale tlog g) tlog) s e table =
      run_query B fs tlog s e table"
    by (simp only: run_query_def)
  have grp: "\<forall>n \<in> set (group_rows tlog s e d). latest_created tlog d \<le> timestamp n"
    by (simp add: set_group_rows)
  have ge: "\<forall>c \<in> set tlog. documentId c = d \<and> changeType c = CREATED \<longrightarrow>
         timestamp c \<le> latest_created tlog d"
    using latest_created_ge by blast
  have att: "(\<exists>c \<in> set tlog. documentId c = d \<and> changeType c = CREATED) \<longrightarrow>
         (\<exists>c \<in> set tlog. documentId c = d \<and> changeType c = CREATED \<and>
            timestamp c = latest_created tlog d)"
    using latest_created_attained by blast
  have epoch: "\<not> (\<exists>c \<in> set tlog. documentId c = d \<and> changeType c = CREATED) \<longrightarrow>
         latest_created tlog d = 0"
    using latest_created_epoch by blast
  have src: "\<forall>t \<in> set (tmp_table B fs tlog s e). \<forall>k f v.
         field_of fs k = Some f \<and> columns t k = Some v \<longrightarrow>
         (\<exists>n \<in> set tlog. documentId n = documentId t \<and>
            latest_created tlog (documentId t) \<le> timestamp n \<and>
            selection B f (columns n k) = Some v)"
  proof (intro ballI allI impI)
    fix t k f v
    assume t: "t \<in> set (tmp_table B fs tlog s e)"
      and fv: "field_of fs k = Some f \<and> columns t k = Some v"
    from fv have key: "key f = k"
      using field_of_key by blast
    from tmp_table_row(3) [OF t, of k] fv
    have "aggregate B f (group_rows tlog s e (documentId t)) = Some v"
      by simp
    from aggregate_Some [OF this] obtain n
      where "n \<in> set (group_rows tlog s e (documentId t))"
        and "selection B f (columns n (key f)) = Some v"
      by blast
    then show "\<exists>n \<in> set tlog. documentId n = documentId t \<and>
            latest_created tlog (documentId t) \<le> timestamp n \<and>
            selection B f (columns n k) = Some v"
      unfolding key set_group_rows by blast
  qed
  from tmp run grp ge att epoch src show ?thesis
    by blast
qed

text \<open>
  The document \<open>x\<close> created at 1 with \<open>a = 1\<close>, deleted at 2 and created
  again at 3 without \<open>a\<close>: its latest \<^verbatim>\<open>CREATED\<close> entry is at 3, the aggregate of
  \<open>a\<close> is null although the entry at 1 holds a value, and \<open>b = 5\<close> comes
  from the entry at 3.  Writing 99 into the columns of the older entries
  changes nothing.
\<close>

theorem values_before_latest_created_ignored_witness:
  "hd (tmp_table scalar_sql schema recreated_log 0 10) \<in> set (tmp_table scalar_sql schema recreated_log 0 10)
   \<and> documentId (hd (tmp_table scalar_sql schema recreated_log 0 10)) = ''x''
   \<and> hd recreated_log \<in> set recreated_log
   \<and> documentId (hd recreated_log) = ''x'' \<and> changeType (hd recreated_log) = CREATED
   \<and> timestamp (hd recreated_log) = 1 \<and> columns (hd recreated_log) ''a'' = Some 1
   \<and> latest_created recreated_log ''x'' = 3
   \<and> columns (hd (tmp_table scalar_sql schema recreated_log 0 10)) ''a'' = None
   \<and> columns (hd (tmp_table scalar_sql schema recreated_log 0 10)) ''b'' = Some 5
   \<and> field_of schema ''b'' = Some (plain_field ''b'' ''INT64'')
   \<and> (\<exists>n \<in> set recreated_log. documentId n = ''x'' \<and> 3 \<le> timestamp n \<and> columns n ''b'' = Some 5)
   \<and> columns (hd (map (overwrite_stale recreated_log (\<lambda>n k. Some 99)) recreated_log)) ''a'' = Some 99
   \<and> tmp_table scalar_sql schema (map (overwrite_stale recreated_log (\<lambda>n k. Some 99)) recreated_log) 0 10 =
       tmp_table scalar_sql schema recreated_log 0 10"
proof -
  let ?tmp = "tmp_table scalar_sql schema recreated_log 0 10"
  note inst = values_before_latest_created_ignored
    [of scalar_sql schema recreated_log "\<lambda>n k. Some 99" 0 10 "[]" "''x''"]
  have ne: "?tmp \<noteq> []"
    using recreated_log_tmp by auto
  then have mem: "hd ?tmp \<in> set ?tmp"
    by simp
  from recreated_log_tmp ne have facts: "documentId (hd ?tmp) = ''x''"
    "columns (hd ?tmp) ''a'' = None" "columns (hd ?tmp) ''b'' = Some 5"
    by (cases ?tmp; simp)+
  have first: "hd recreated_log \<in> set recreated_log" "documentId (hd recreated_log) = ''x''"
    "changeType (hd recreated_log) = CREATED" "timestamp (hd recreated_log) = 1"
    "columns (hd recreated_log) ''a'' = Some 1"
    by (simp_all add: recreated_log_def entry_def cols_def)
  have stale: "columns (hd (map (overwrite_stale recreated_log (\<lambda>n k. Some 99)) recreated_log)) ''a'' =
      Some 99"
    using recreated_log_latest first
    by (simp add: overwrite_stale_def hd_map recreated_log_def)
  have fb: "field_of schema ''b'' = Some (plain_field ''b'' ''INT64'')"
    by (simp add: field_of_def schema_def plain_field_def)
  have sel: "\<And>x. selection scalar_sql (plain_field ''b'' ''INT64'') x = x"
    by (simp add: selection_def plain_field_def)
  from inst have same: "tmp_table scalar_sql schema
      (map (overwrite_stale recreated_log (\<lambda>n k. Some 99)) recreated_log) 0 10 = ?tmp"
    by blast
  from inst have "\<forall>t \<in> set ?tmp. \<forall>k f v.
         field_of schema k = Some f \<and> columns t k = Some v \<longrightarrow>
         (\<exists>n \<in> set recreated_log. documentId n = documentId t \<and>
            latest_created recreated_log (documentId t) \<le> timestamp n \<and>
            selection scalar_sql f (columns n k) = Some v)"
    by blast
  from this [rule_format, OF mem, of "''b''" "plain_field ''b'' ''INT64''" 5] fb facts
  have "\<exists>n \<in> set recreated_log. documentId n = ''x'' \<and> 3 \<le> timestamp n \<and> columns n ''b'' = Some 5"
    by (simp add: sel recreated_log_latest)
  with mem facts first fb recreated_log_latest stale same show ?thesis
    by simp
qed

section \<open>A page without rows\<close>

text \<open>
  Claim C10.  The backfill loop, entered with any cursor and any state, stops
  when the page it fetches yields no coerced row: if the coercion fails for
  every document of the page (the first \<open>batchSize\<close> of the fetched
  documents), the loop returns at once, with only \<^verbatim>\<open>total\<close> advanced; the cursor
  is not moved and no row is inserted, however many documents remain.  This
  holds for \<^verbatim>\<open>backfillCollection\<close> and for \<^verbatim>\<open>backfillCollectionGroup\<close>, and for
  their first page in particular.
\<close>

theorem backfill_stops_at_empty_page:
  "((\<forall>d \<in> set (take batchSize remaining). isl (collection_row P config d)) \<longrightarrow>
      backfill_loop (collection_row P config) (bq_insert P) batchSize remaining st =
        st\<lparr>total := total st + length (take (batchSize + 1) remaining)\<rparr>)
   \<and> ((\<forall>d \<in> set (take batchSize remaining). isl (group_row P config d)) \<longrightarrow>
      backfill_loop (group_row P config) (bq_insert P) batchSize remaining st =
        st\<lparr>total := total st + length (take (batchSize + 1) remaining)\<rparr>)
   \<and> ((\<forall>d \<in> set (take batchSize (fs_collection fs path)). isl (collection_row P config d)) \<longrightarrow>
      backfillCollection P fs batchSize config path table =
        \<lparr>inserted = table, total = length (take (batchSize + 1) (fs_collection fs path)),
         ref = None\<rparr>)
   \<and> ((\<forall>d \<in> set (take batchSize (fs_collectionGroup fs g)). isl (group_row P config d)) \<and>
       collectionGroup config = Some g \<longrightarrow>
      backfillCollectionGroup P fs batchSize config table =
        Inr \<lparr>inserted = table, total = length (take (batchSize + 1) (fs_collectionGroup fs g)),
             ref = None\<rparr>)"
proof -
  have loop: "backfill_loop coerce (bq_insert P) batchSize docs st' =
                st'\<lparr>total := total st' + length (take (batchSize + 1) docs)\<rparr>"
    if "\<forall>d \<in> set (take batchSize docs). isl (coerce d)"
    for coerce docs and st' :: backfill_state
    using that by (rule backfill_loop_empty_page)
  have first_page: "backfillCollection P fs batchSize config path table =
      \<lparr>inserted = table, total = length (take (batchSize + 1) (fs_collection fs path)),
       ref = None\<rparr>"
    if "\<forall>d \<in> set (take batchSize (fs_collection fs path)). isl (collection_row P config d)"
    using loop [OF that] by (simp add: backfillCollection_def)
  have first_group_page: "backfillCollectionGroup P fs batchSize config table =
      Inr \<lparr>inserted = table, total = length (take (batchSize + 1) (fs_collectionGroup fs g)),
           ref = None\<rparr>"
    if "\<forall>d \<in> set (take batchSize (fs_collectionGroup fs g)). isl (group_row P config d)"
      and "collectionGroup config = Some g"
    using loop [OF that(1)] that(2) by (simp add: backfillCollectionGroup_def)
  from loop first_page first_group_page show ?thesis
    by blast
qed

text \<open>
  Five documents, pages of two, and a webhook that rejects the first two
  documents and would accept the third: the backfill ends after the first
  page with an empty table, though three documents remain.
\<close>

theorem backfill_stops_at_empty_page_witness:
  "fs_collection members_store ''members'' = map snapshot [''a'', ''b'', ''c'', ''d'', ''e'']
   \<and> isl (collection_row sample_platform webhook_config (snapshot ''a''))
   \<and> isl (collection_row sample_platform webhook_config (snapshot ''b''))
   \<and> collection_row sample_platform webhook_config (snapshot ''c'') =
       Inr [''documentId'' \<mapsto> Str ''c'', ''email'' \<mapsto> Str ''c@example.org'']
   \<and> backfillCollection sample_platform members_store 2 webhook_config ''members'' [] =
       \<lparr>inserted = [], total = 3, ref = None\<rparr>
   \<and> backfillCollectionGroup sample_platform members_store 2 webhook_config [] =
       Inr \<lparr>inserted = [], total = 3, ref = None\<rparr>"
proof -
  have coll: "fs_collection members_store ''members'' = map snapshot [''a'', ''b'', ''c'', ''d'', ''e'']"
    and grp: "fs_collectionGroup members_store ''members'' = map snapshot [''a'', ''b'', ''c'', ''d'', ''e'']"
    by (simp_all add: members_store_def)
  have cg: "collectionGroup webhook_config = Some ''members''"
    by (simp add: webhook_config_def)
  have page: "take 2 (map snapshot [''a'', ''b'', ''c'', ''d'', ''e'']) = [snapshot ''a'', snapshot ''b'']"
    and len: "length (take (2 + 1) (map snapshot [''a'', ''b'', ''c'', ''d'', ''e''])) = 3"
    by simp_all
  have h1: "\<forall>d \<in> set (take 2 (fs_collection members_store ''members'')).
              isl (collection_row sample_platform webhook_config d)"
    unfolding coll page using rejected_rows by simp
  have h2: "\<forall>d \<in> set (take 2 (fs_collectionGroup members_store ''members'')).
              isl (group_row sample_platform webhook_config d)"
    unfolding grp page using rejected_rows by simp
  from backfill_stops_at_empty_page
    [of 2 "[]" sample_platform webhook_config "\<lparr>inserted = [], total = 0, ref = None\<rparr>"
       members_store "''members''" "[]" "''members''"]
    h1 h2 cg
  have "backfillCollection sample_platform members_store 2 webhook_config ''members'' [] =
       \<lparr>inserted = [], total = length (take (2 + 1) (fs_collection members_store ''members'')), ref = None\<rparr>"
    and "backfillCollectionGroup sample_platform members_store 2 webhook_config [] =
       Inr \<lparr>inserted = [], total = length (take (2 + 1) (fs_collectionGroup members_store ''members'')),
            ref = None\<rparr>"
    by blast+
  with coll grp len rejected_rows accepted_row show ?thesis
    by simp
qed

end
